theory Spec2Isabelle
  imports Complex_Main
begin

section \<open>The particle animations of the portfolio website\<close>

text \<open>
  The repository holds three particle animations on a canvas: the class
  \<^verbatim>\<open>ParticleSystem\<close> of \<^verbatim>\<open>script.js\<close>, its enhanced copy in the third script
  (mouse interaction and gradients added) and the function
  \<^verbatim>\<open>initializeParticles\<close> of the editorial script. This theory embeds them
  as functions over an explicit browser state.

  JavaScript numbers are modelled as \<^typ>\<open>real\<close> (no rounding, no NaN), pixel
  sizes and counters as \<^typ>\<open>nat\<close>, the millisecond clock as \<^typ>\<open>int\<close>.
  One computation is modelled in the double arithmetic of the code, because
  the claim about it depends on the last bit: the opacity pulse of
  \<^verbatim>\<open>script.js\<close>.
  Every call into the browser that the claims speak about (drawing, frame
  requests, console output) and every invocation of a routine of the class is appended to a log.
\<close>

subsection \<open>The browser\<close>

datatype routine =
    GetParticleCount | CheckWebGLSupport | ResizeCanvas | Init | Animate
  | DrawConnections | SetupEventListeners | Destroy

datatype effect =
    Call routine
  | FillRect nat nat
  | ClearRect nat nat
  | Arc real real real real
  | GradientArc real real real real real
  | Line real real real real real
  | RequestFrame nat
  | CancelFrame nat
  | Warn string
  | Info string
  | Uncaught string

text \<open>
  \<^term>\<open>Arc x y r a\<close> is a filled circle at \<open>(x, y)\<close> of radius \<open>r\<close> and alpha \<open>a\<close>;
  \<^term>\<open>GradientArc x y r hue a\<close> is one filled with a radial gradient of that hue;
  \<^term>\<open>Line x1 y1 x2 y2 a\<close> is a stroked segment of alpha \<open>a\<close>.
  The record below is what the scripts read from and write to the host:
  the one-time capability probes, the canvas element, the pseudo-random
  source (\<^verbatim>\<open>Math.random\<close> as a stream with a read position), the list of
  pending animation-frame callbacks and the handle counter.
\<close>

record host =
  h_lowPerformanceUA :: bool
  h_innerWidth :: nat
  h_innerHeight :: nat
  h_webgl :: bool
  h_reducedMotion :: bool
  h_canvas :: bool
  h_context2d :: bool
  h_offsetWidth :: nat
  h_offsetHeight :: nat
  h_width :: nat
  h_height :: nat
  h_hidden :: bool
  h_clock :: int
  h_random :: "nat \<Rightarrow> real"
  h_randomCalls :: nat
  h_pending :: "nat list"
  h_lastHandle :: nat
  h_listeners :: bool
  h_log :: "effect list"

definition emit :: "effect \<Rightarrow> host \<Rightarrow> host" where
  "emit e h = h\<lparr>h_log := h_log h @ [e]\<rparr>"

definition emits :: "effect list \<Rightarrow> host \<Rightarrow> host" where
  "emits es h = h\<lparr>h_log := h_log h @ es\<rparr>"

text \<open>\<^verbatim>\<open>Math.random()\<close>: the next number of the stream.\<close>

definition mathRandom :: "host \<Rightarrow> real \<times> host" where
  "mathRandom h = (h_random h (h_randomCalls h), h\<lparr>h_randomCalls := Suc (h_randomCalls h)\<rparr>)"

text \<open>
  \<^verbatim>\<open>requestAnimationFrame\<close> increments the callback identifier, queues the
  callback under it and returns it, so a handle is never zero;
  \<^verbatim>\<open>cancelAnimationFrame\<close> removes the callback. The only callback the
  particle systems ever pass is their own \<^verbatim>\<open>animate\<close>.
\<close>

definition requestAnimationFrame :: "host \<Rightarrow> nat \<times> host" where
  "requestAnimationFrame h =
     (let handle = Suc (h_lastHandle h)
      in (handle, h\<lparr>h_lastHandle := handle,
                     h_pending := h_pending h @ [handle],
                     h_log := h_log h @ [RequestFrame handle]\<rparr>))"

definition cancelAnimationFrame :: "nat \<Rightarrow> host \<Rightarrow> host" where
  "cancelAnimationFrame handle h =
     h\<lparr>h_pending := removeAll handle (h_pending h),
       h_log := h_log h @ [CancelFrame handle]\<rparr>"

subsection \<open>Double arithmetic\<close>

text \<open>
  IEEE 754 binary64 rounding to nearest, ties to even, of a real number: the
  number is scaled so that its integer part has 53 bits, rounded to an
  integer and scaled back. The exponent range is not bounded (no overflow,
  no subnormal numbers; neither occurs in the pulse). A numeric literal
  denotes the double nearest to it, and \<^verbatim>\<open>Math.sin\<close> is taken as the correctly
  rounded sine.
\<close>

definition roundEven :: "real \<Rightarrow> int" where
  "roundEven r =
     (let f = \<lfloor>r\<rfloor>
      in if r - of_int f < 1 / 2 then f
         else if r - of_int f > 1 / 2 then f + 1
         else if even f then f else f + 1)"

definition roundDouble :: "real \<Rightarrow> real" where
  "roundDouble x =
     (if x = 0 then 0
      else (let e = \<lfloor>log 2 \<bar>x\<bar>\<rfloor> - 52
            in of_int (roundEven (x / 2 powr of_int e)) * 2 powr of_int e))"

definition mathSin :: "real \<Rightarrow> real" where
  "mathSin x = roundDouble (sin x)"

subsection \<open>The class ParticleSystem of script.js\<close>

text \<open>
  The enhanced script repeats the class with more fields on the particle and
  on the system. Its records extend the ones of \<^verbatim>\<open>script.js\<close>, and the
  routines whose text is the same in both scripts (\<^verbatim>\<open>getParticleCount\<close>,
  \<^verbatim>\<open>checkWebGLSupport\<close>, \<^verbatim>\<open>resize\<close>, \<^verbatim>\<open>drawConnections\<close>, \<^verbatim>\<open>destroy\<close>) are
  defined once, for both.
\<close>

record particle =
  p_x :: real
  p_y :: real
  p_vx :: real
  p_vy :: real
  p_radius :: real
  p_opacity :: real
  p_pulseSpeed :: real

text \<open>
  The fields \<^verbatim>\<open>canvas\<close> and \<^verbatim>\<open>ctx\<close> hold references; the code only tests
  them for truthiness, so they are booleans here. \<^verbatim>\<open>animationId\<close> is
  \<^verbatim>\<open>null\<close> or a frame handle.
\<close>

record 'p psys =
  canvas :: bool
  ctx :: bool
  particles :: "'p list"
  particleCount :: nat
  animationId :: "nat option"
  isVisible :: bool
  frameCount :: nat
  lastFrame :: int

text \<open>JavaScript truthiness of \<^verbatim>\<open>this.animationId\<close>: \<^verbatim>\<open>null\<close> and \<open>0\<close> are falsy.\<close>

fun truthy :: "nat option \<Rightarrow> bool" where
  "truthy None = False"
| "truthy (Some handle) = (handle \<noteq> 0)"

text \<open>\<^verbatim>\<open>v || d\<close> on numbers: \<open>d\<close> when \<open>v\<close> is zero.\<close>

definition orElse :: "real \<Rightarrow> real \<Rightarrow> real" where
  "orElse v d = (if v = 0 then d else v)"

definition checkWebGLSupport :: "host \<Rightarrow> bool \<times> host" where
  "checkWebGLSupport h = (h_webgl h, emit (Call CheckWebGLSupport) h)"

definition getParticleCount :: "host \<Rightarrow> nat \<times> host" where
  "getParticleCount h =
     (if h_lowPerformanceUA h \<or> h_innerWidth h < 768 then 15
      else if h_innerWidth h < 1200 then 25
      else if h_webgl h then 40 else 30,
      emit (Call GetParticleCount) h)"

definition resize :: "host \<times> 's \<Rightarrow> host \<times> 's" where
  "resize w = (case w of (h, s) \<Rightarrow>
     ((emit (Call ResizeCanvas) h)\<lparr>h_width := h_offsetWidth h, h_height := h_offsetHeight h\<rparr>, s))"

text \<open>One object literal of \<^verbatim>\<open>init\<close>: seven random numbers in source order.\<close>

definition newParticle :: "host \<Rightarrow> particle \<times> host" where
  "newParticle h0 =
     (let (r1, h1) = mathRandom h0;
          (r2, h2) = mathRandom h1;
          (r3, h3) = mathRandom h2;
          (r4, h4) = mathRandom h3;
          (r5, h5) = mathRandom h4;
          (r6, h6) = mathRandom h5;
          (r7, h7) = mathRandom h6
      in (\<lparr>p_x = r1 * real (h_width h0),
           p_y = r2 * real (h_height h0),
           p_vx = (r3 - 0.5) * 0.5,
           p_vy = (r4 - 0.5) * 0.5,
           p_radius = r5 * 2 + 1,
           p_opacity = r6 * 0.6 + 0.2,
           p_pulseSpeed = r7 * 0.02 + 0.01\<rparr>, h7))"

text \<open>The loop of \<^verbatim>\<open>init\<close>, by the number of iterations left.\<close>

fun initLoop :: "nat \<Rightarrow> host \<times> particle psys \<Rightarrow> host \<times> particle psys" where
  "initLoop 0 w = w"
| "initLoop (Suc n) (h, s) =
     (let (p, h') = newParticle h
      in initLoop n (h', s\<lparr>particles := particles s @ [p]\<rparr>))"

definition init :: "host \<times> particle psys \<Rightarrow> host \<times> particle psys" where
  "init w = (case w of (h, s) \<Rightarrow> initLoop (particleCount s) (emit (Call Init) h, s))"

text \<open>
  The state change of one particle in the \<^verbatim>\<open>forEach\<close> of \<^verbatim>\<open>animate\<close>:
  move by the capped time step, recompute the pulse opacity (in doubles,
  each literal and each operation rounded), wrap at the edges.
\<close>

definition wrapEdge :: "real \<Rightarrow> real \<Rightarrow> real \<Rightarrow> real" where
  "wrapEdge r limit v =
     (if v < - r then limit + r else if v > limit + r then - r else v)"

definition updateParticle :: "nat \<Rightarrow> nat \<Rightarrow> int \<Rightarrow> int \<Rightarrow> particle \<Rightarrow> particle" where
  "updateParticle width height now frameTime p =
     (let deltaTime = min (real_of_int frameTime * 0.016) 1;
          x1 = p_x p + orElse (p_vx p) 0 * deltaTime;
          y1 = p_y p + orElse (p_vy p) 0 * deltaTime;
          pulse = roundDouble (roundDouble 0.3 + roundDouble (roundDouble 0.2 *
                    mathSin (roundDouble (real_of_int now * orElse (p_pulseSpeed p) (roundDouble 0.01)))))
      in p\<lparr>p_x := wrapEdge (p_radius p) (real width) x1,
           p_y := wrapEdge (p_radius p) (real height) y1,
           p_opacity := pulse\<rparr>)"

text \<open>
  The drawing of one particle. \<^verbatim>\<open>arc\<close> throws on a negative radius; the
  inner \<^verbatim>\<open>try\<close> turns that into a warning and the particle is skipped.
\<close>

definition drawParticle :: "particle \<Rightarrow> effect" where
  "drawParticle p =
     (if orElse (p_radius p) 1 < 0 then Warn ''Particle drawing failed''
      else Arc (p_x p) (p_y p) (orElse (p_radius p) 1) (orElse (p_opacity p) 0.5))"

text \<open>
  \<^verbatim>\<open>drawConnections\<close>: the two index loops, \<open>i\<close> over all particles and \<open>j\<close>
  over the later ones. \<^term>\<open>connections\<close> lists the index pairs that get a
  line, with the line's alpha, in drawing order.
\<close>

definition distanceSquared :: "'a particle_scheme \<Rightarrow> 'a particle_scheme \<Rightarrow> real" where
  "distanceSquared p q =
     (p_x p - p_x q) * (p_x p - p_x q) + (p_y p - p_y q) * (p_y p - p_y q)"

definition maxDistance :: real where
  "maxDistance = 80"

definition lineOpacity :: "real \<Rightarrow> real" where
  "lineOpacity distance = (1 - distance / maxDistance) * 0.15"

definition connection :: "'a particle_scheme list \<Rightarrow> nat \<Rightarrow> nat \<Rightarrow> (nat \<times> nat \<times> real) list" where
  "connection ps i j =
     (if distanceSquared (ps ! i) (ps ! j) < maxDistance * maxDistance
      then [(i, j, lineOpacity (sqrt (distanceSquared (ps ! i) (ps ! j))))]
      else [])"

definition connections :: "'a particle_scheme list \<Rightarrow> (nat \<times> nat \<times> real) list" where
  "connections ps =
     concat (map (\<lambda>i. concat (map (\<lambda>j. connection ps i j) [Suc i ..< length ps]))
                 [0 ..< length ps])"

definition strokeLine :: "'a particle_scheme list \<Rightarrow> nat \<times> nat \<times> real \<Rightarrow> effect" where
  "strokeLine ps c = (case c of (i, j, a) \<Rightarrow>
     Line (p_x (ps ! i)) (p_y (ps ! i)) (p_x (ps ! j)) (p_y (ps ! j)) a)"

definition drawConnections ::
  "host \<times> ('a particle_scheme, 'z) psys_scheme \<Rightarrow> host \<times> ('a particle_scheme, 'z) psys_scheme" where
  "drawConnections w = (case w of (h, s) \<Rightarrow>
     (emits (Call DrawConnections # map (strokeLine (particles s)) (connections (particles s))) h, s))"

text \<open>
  \<^verbatim>\<open>animate\<close>. Each particle is updated and then drawn; as no particle reads
  another one inside the loop, the model updates all and logs the drawings
  in order. No statement of the body throws outside the inner \<^verbatim>\<open>try\<close>, so
  the outer \<^verbatim>\<open>catch\<close> has no branch here.
\<close>

definition animate :: "host \<times> particle psys \<Rightarrow> host \<times> particle psys" where
  "animate w = (case w of (h0, s) \<Rightarrow>
     (let h = emit (Call Animate) h0
      in if \<not> isVisible s \<or> \<not> ctx s \<or> \<not> canvas s
         then (h, s\<lparr>animationId := None\<rparr>)
         else
           (let h1 = emit (FillRect (h_width h) (h_height h)) h;
                now = h_clock h1;
                frameTime = now - (if lastFrame s = 0 then now else lastFrame s);
                ps = map (updateParticle (h_width h1) (h_height h1) now frameTime) (particles s);
                s1 = s\<lparr>lastFrame := now, particles := ps\<rparr>;
                h2 = emits (map drawParticle ps) h1;
                (h3, s3) = (if frameCount s1 mod 2 = 0 then drawConnections (h2, s1) else (h2, s1));
                s4 = s3\<lparr>frameCount := frameCount s3 + 1\<rparr>;
                (handle, h4) = requestAnimationFrame h3
            in (h4, s4\<lparr>animationId := Some handle\<rparr>))))"

definition destroy :: "host \<times> ('p, 'z) psys_scheme \<Rightarrow> host \<times> ('p, 'z) psys_scheme" where
  "destroy w = (case w of (h0, s) \<Rightarrow>
     (let h = emit (Call Destroy) h0
      in if truthy (animationId s)
         then (cancelAnimationFrame (the (animationId s)) h, s\<lparr>animationId := None\<rparr>)
         else (h, s)))"

definition setupEventListeners :: "host \<times> particle psys \<Rightarrow> host \<times> particle psys" where
  "setupEventListeners w = (case w of (h, s) \<Rightarrow>
     ((emit (Call SetupEventListeners) h)\<lparr>h_listeners := True\<rparr>, s))"

text \<open>The constructor, on a canvas argument that may be \<^verbatim>\<open>null\<close>.\<close>

definition construct :: "host \<Rightarrow> host \<times> particle psys" where
  "construct h0 =
     (let (n, h1) = getParticleCount h0;
          s = \<lparr>canvas = h_canvas h0, ctx = (h_canvas h0 \<and> h_context2d h0),
               particles = [], particleCount = n, animationId = None,
               isVisible = True, frameCount = 0, lastFrame = 0\<rparr>
      in if \<not> canvas s \<or> \<not> ctx s
         then (emit (Warn ''ParticleSystem: Canvas context not available'') h1, s)
         else if h_reducedMotion h1
         then (emit (Info ''ParticleSystem: Animations disabled due to reduced motion preference'') h1, s)
         else
           (let (gl, h2) = checkWebGLSupport h1;
                (h3, s3) = (if \<not> gl
                   then (emit (Warn ''ParticleSystem: Hardware acceleration not available, using reduced particles'') h2,
                         s\<lparr>particleCount := min (particleCount s) 15\<rparr>)
                   else (h2, s))
            in setupEventListeners (animate (init (resize (h3, s3))))))"

subsection \<open>The page around the ParticleSystem\<close>

text \<open>
  A freshly loaded document has logged nothing, has no frame callback of the
  particle system pending and no listener of it registered. The handler of
  \<^verbatim>\<open>DOMContentLoaded\<close> calls the constructor when the canvas element exists;
  \<^term>\<open>loadPage\<close> is that call on a fresh page. (With \<^term>\<open>h_canvas\<close> false it is
  the constructor on \<^verbatim>\<open>null\<close>: the page never makes that call, the constructor
  provides for it.)
\<close>

definition newPage :: "host \<Rightarrow> host" where
  "newPage h = h\<lparr>h_pending := [], h_listeners := False, h_log := []\<rparr>"

definition loadPage :: "host \<Rightarrow> host \<times> particle psys" where
  "loadPage h = construct (newPage h)"

text \<open>The listener of \<^verbatim>\<open>visibilitychange\<close> that \<^verbatim>\<open>setupEventListeners\<close> registers.\<close>

definition onVisibilityChange :: "host \<times> particle psys \<Rightarrow> host \<times> particle psys" where
  "onVisibilityChange w = (case w of (h, s) \<Rightarrow>
     (let s1 = s\<lparr>isVisible := \<not> h_hidden h\<rparr>
      in if isVisible s1 \<and> \<not> truthy (animationId s1) then animate (h, s1) else (h, s1)))"

text \<open>
  What the browser can do to the page afterwards: let the clock show another
  time, run the pending animation-frame callbacks (all of them, in order; new
  requests wait for the next frame), change the visibility, resize the window
  (the debounced handler then calls \<^verbatim>\<open>resize\<close>), move the mouse to a point
  given relative to the canvas or out of the window (the class of
  \<^verbatim>\<open>script.js\<close> does not listen to the mouse), and announce the unload
  (the page's \<^verbatim>\<open>cleanup\<close> calls \<^verbatim>\<open>destroy\<close>).
\<close>

datatype event =
    ClockShows int
  | AnimationFrame
  | VisibilityChange bool
  | WindowResize nat nat
  | MouseMove real real
  | MouseLeave
  | BeforeUnload

fun fire :: "event \<Rightarrow> host \<times> particle psys \<Rightarrow> host \<times> particle psys" where
  "fire (ClockShows t) (h, s) = (h\<lparr>h_clock := t\<rparr>, s)"
| "fire AnimationFrame (h, s) =
     foldl (\<lambda>w handle. animate w) (h\<lparr>h_pending := []\<rparr>, s) (h_pending h)"
| "fire (VisibilityChange hid) (h, s) =
     (let h1 = h\<lparr>h_hidden := hid\<rparr>
      in if h_listeners h1 then onVisibilityChange (h1, s) else (h1, s))"
| "fire (WindowResize ow oh) (h, s) =
     (let h1 = h\<lparr>h_offsetWidth := ow, h_offsetHeight := oh\<rparr>
      in if h_listeners h1 then resize (h1, s) else (h1, s))"
| "fire (MouseMove mx my) (h, s) = (h, s)"
| "fire MouseLeave (h, s) = (h, s)"
| "fire BeforeUnload (h, s) = destroy (h, s)"

definition run :: "event list \<Rightarrow> host \<times> particle psys \<Rightarrow> host \<times> particle psys" where
  "run evs w = foldl (\<lambda>w e. fire e w) w evs"

text \<open>How many frames a log requests, and how often it invokes a routine.\<close>

fun isRequest :: "effect \<Rightarrow> bool" where
  "isRequest (RequestFrame handle) = True"
| "isRequest e = False"

definition frameRequests :: "host \<Rightarrow> nat" where
  "frameRequests h = length (filter isRequest (h_log h))"

definition calls :: "routine \<Rightarrow> host \<Rightarrow> nat" where
  "calls m h = length (filter (\<lambda>e. e = Call m) (h_log h))"

subsection \<open>The class ParticleSystem of the enhanced script\<close>

record eparticle = particle +
  p_baseVx :: real
  p_baseVy :: real
  p_hue :: real

record esys = "eparticle psys" +
  mouseX :: real
  mouseY :: real
  mouseRadius :: real
  interactionEnabled :: bool

text \<open>\<^verbatim>\<open>Math.atan2\<close> on reals (no signed zero).\<close>

definition atan2 :: "real \<Rightarrow> real \<Rightarrow> real" where
  "atan2 y x =
     (if 0 < x then arctan (y / x)
      else if x < 0 \<and> 0 \<le> y then arctan (y / x) + pi
      else if x < 0 then arctan (y / x) - pi
      else if 0 < y then pi / 2
      else if y < 0 then - pi / 2
      else 0)"

text \<open>One object literal of the enhanced \<^verbatim>\<open>init\<close>: ten random numbers in source order.\<close>

definition e_newParticle :: "host \<Rightarrow> eparticle \<times> host" where
  "e_newParticle h0 =
     (let (r1, h1) = mathRandom h0;
          (r2, h2) = mathRandom h1;
          (r3, h3) = mathRandom h2;
          (r4, h4) = mathRandom h3;
          (r5, h5) = mathRandom h4;
          (r6, h6) = mathRandom h5;
          (r7, h7) = mathRandom h6;
          (r8, h8) = mathRandom h7;
          (r9, h9) = mathRandom h8;
          (r10, h10) = mathRandom h9
      in (\<lparr>p_x = r1 * real (h_width h0),
           p_y = r2 * real (h_height h0),
           p_vx = (r3 - 0.5) * 0.5,
           p_vy = (r4 - 0.5) * 0.5,
           p_radius = r7 * 2 + 1,
           p_opacity = r8 * 0.6 + 0.2,
           p_pulseSpeed = r9 * 0.02 + 0.01,
           p_baseVx = (r5 - 0.5) * 0.5,
           p_baseVy = (r6 - 0.5) * 0.5,
           p_hue = r10 * 60 + 190\<rparr>, h10))"

fun e_initLoop :: "nat \<Rightarrow> host \<times> esys \<Rightarrow> host \<times> esys" where
  "e_initLoop 0 w = w"
| "e_initLoop (Suc n) (h, s) =
     (let (p, h') = e_newParticle h
      in e_initLoop n (h', s\<lparr>particles := particles s @ [p]\<rparr>))"

definition e_init :: "host \<times> esys \<Rightarrow> host \<times> esys" where
  "e_init w = (case w of (h, s) \<Rightarrow> e_initLoop (particleCount s) (emit (Call Init) h, s))"

text \<open>
  The state change of one particle in the enhanced \<^verbatim>\<open>animate\<close>: the mouse
  pushes the particle away or the velocity returns towards its base value,
  then the move, the pulse and the wrap as before.
\<close>

definition mouseVelocity :: "esys \<Rightarrow> eparticle \<Rightarrow> real \<times> real" where
  "mouseVelocity s p =
     (if interactionEnabled s then
        (let dx = mouseX s - p_x p;
             dy = mouseY s - p_y p;
             distance = sqrt (dx * dx + dy * dy)
         in if distance < mouseRadius s then
              (let force = (mouseRadius s - distance) / mouseRadius s;
                   angle = atan2 dy dx
               in (p_vx p - cos angle * force * 0.2, p_vy p - sin angle * force * 0.2))
            else (p_vx p + (p_baseVx p - p_vx p) * 0.05, p_vy p + (p_baseVy p - p_vy p) * 0.05))
      else (p_vx p, p_vy p))"

definition e_updateParticle :: "esys \<Rightarrow> nat \<Rightarrow> nat \<Rightarrow> int \<Rightarrow> int \<Rightarrow> eparticle \<Rightarrow> eparticle" where
  "e_updateParticle s width height now frameTime p =
     (let (vx1, vy1) = mouseVelocity s p;
          deltaTime = min (real_of_int frameTime * 0.016) 1;
          x1 = p_x p + orElse vx1 0 * deltaTime;
          y1 = p_y p + orElse vy1 0 * deltaTime;
          pulseValue = sin (real_of_int now * orElse (p_pulseSpeed p) 0.01)
      in p\<lparr>p_vx := vx1, p_vy := vy1,
           p_x := wrapEdge (p_radius p) (real width) x1,
           p_y := wrapEdge (p_radius p) (real height) y1,
           p_opacity := 0.3 + 0.3 * pulseValue\<rparr>)"

text \<open>
  The drawing of one particle: \<^verbatim>\<open>arc\<close> and \<^verbatim>\<open>createRadialGradient\<close> throw on
  a negative radius, inside the \<^verbatim>\<open>try\<close>.
\<close>

definition e_drawParticle :: "int \<Rightarrow> eparticle \<Rightarrow> effect" where
  "e_drawParticle now p =
     (let colorVariation = 20 * sin (real_of_int now * orElse (p_pulseSpeed p) 0.01)
      in if orElse (p_radius p) 1 < 0 \<or> p_radius p * 2 < 0 then Warn ''Particle drawing failed''
         else GradientArc (p_x p) (p_y p) (orElse (p_radius p) 1) (p_hue p + colorVariation) (p_opacity p))"

definition e_animate :: "host \<times> esys \<Rightarrow> host \<times> esys" where
  "e_animate w = (case w of (h0, s) \<Rightarrow>
     (let h = emit (Call Animate) h0
      in if \<not> isVisible s \<or> \<not> ctx s \<or> \<not> canvas s
         then (h, s\<lparr>animationId := None\<rparr>)
         else
           (let h1 = emit (FillRect (h_width h) (h_height h)) h;
                now = h_clock h1;
                frameTime = now - (if lastFrame s = 0 then now else lastFrame s);
                ps = map (e_updateParticle s (h_width h1) (h_height h1) now frameTime) (particles s);
                s1 = s\<lparr>lastFrame := now, particles := ps\<rparr>;
                h2 = emits (map (e_drawParticle now) ps) h1;
                (h3, s3) = (if frameCount s1 mod 2 = 0 then drawConnections (h2, s1) else (h2, s1));
                s4 = s3\<lparr>frameCount := frameCount s3 + 1\<rparr>;
                (handle, h4) = requestAnimationFrame h3
            in (h4, s4\<lparr>animationId := Some handle\<rparr>))))"

text \<open>
  The enhanced \<^verbatim>\<open>setupEventListeners\<close> also registers the two mouse
  listeners when \<^verbatim>\<open>interactionEnabled\<close> holds; that field never changes
  afterwards, so the mouse events below test it together with the flag of
  the host.
\<close>

definition e_setupEventListeners :: "host \<times> esys \<Rightarrow> host \<times> esys" where
  "e_setupEventListeners w = (case w of (h, s) \<Rightarrow>
     ((emit (Call SetupEventListeners) h)\<lparr>h_listeners := True\<rparr>, s))"

definition e_construct :: "host \<Rightarrow> host \<times> esys" where
  "e_construct h0 =
     (let (n, h1) = getParticleCount h0;
          s = \<lparr>canvas = h_canvas h0, ctx = (h_canvas h0 \<and> h_context2d h0),
               particles = [], particleCount = n, animationId = None,
               isVisible = True, frameCount = 0, lastFrame = 0,
               mouseX = 0, mouseY = 0, mouseRadius = 150, interactionEnabled = True\<rparr>
      in if \<not> canvas s \<or> \<not> ctx s
         then (emit (Warn ''ParticleSystem: Canvas context not available'') h1, s)
         else if h_reducedMotion h1
         then (emit (Info ''ParticleSystem: Animations disabled due to reduced motion preference'') h1, s)
         else
           (let (gl, h2) = checkWebGLSupport h1;
                (h3, s3) = (if \<not> gl
                   then (emit (Warn ''ParticleSystem: Hardware acceleration not available, using reduced particles'') h2,
                         s\<lparr>particleCount := min (particleCount s) 15, interactionEnabled := False\<rparr>)
                   else (h2, s))
            in e_setupEventListeners (e_animate (e_init (resize (h3, s3))))))"

definition e_loadPage :: "host \<Rightarrow> host \<times> esys" where
  "e_loadPage h = e_construct (newPage h)"

definition e_onVisibilityChange :: "host \<times> esys \<Rightarrow> host \<times> esys" where
  "e_onVisibilityChange w = (case w of (h, s) \<Rightarrow>
     (let s1 = s\<lparr>isVisible := \<not> h_hidden h\<rparr>
      in if isVisible s1 \<and> \<not> truthy (animationId s1) then e_animate (h, s1) else (h, s1)))"

fun e_fire :: "event \<Rightarrow> host \<times> esys \<Rightarrow> host \<times> esys" where
  "e_fire (ClockShows t) (h, s) = (h\<lparr>h_clock := t\<rparr>, s)"
| "e_fire AnimationFrame (h, s) =
     foldl (\<lambda>w handle. e_animate w) (h\<lparr>h_pending := []\<rparr>, s) (h_pending h)"
| "e_fire (VisibilityChange hid) (h, s) =
     (let h1 = h\<lparr>h_hidden := hid\<rparr>
      in if h_listeners h1 then e_onVisibilityChange (h1, s) else (h1, s))"
| "e_fire (WindowResize ow oh) (h, s) =
     (let h1 = h\<lparr>h_offsetWidth := ow, h_offsetHeight := oh\<rparr>
      in if h_listeners h1 then resize (h1, s) else (h1, s))"
| "e_fire (MouseMove mx my) (h, s) =
     (if h_listeners h \<and> interactionEnabled s then (h, s\<lparr>mouseX := mx, mouseY := my\<rparr>) else (h, s))"
| "e_fire MouseLeave (h, s) =
     (if h_listeners h \<and> interactionEnabled s then (h, s\<lparr>mouseX := - 1000, mouseY := - 1000\<rparr>)
      else (h, s))"
| "e_fire BeforeUnload (h, s) = destroy (h, s)"

definition e_run :: "event list \<Rightarrow> host \<times> esys \<Rightarrow> host \<times> esys" where
  "e_run evs w = foldl (\<lambda>w e. e_fire e w) w evs"

subsection \<open>The function initializeParticles of the editorial script\<close>

record Particle =
  P_x :: real
  P_y :: real
  P_vx :: real
  P_vy :: real
  P_radius :: real
  P_opacity :: real

definition ip_particleCount :: nat where
  "ip_particleCount = 50"

definition connectionDistance :: real where
  "connectionDistance = 150"

text \<open>The constructor of the local class \<^verbatim>\<open>Particle\<close>.\<close>

definition Particle_new :: "host \<Rightarrow> Particle \<times> host" where
  "Particle_new h0 =
     (let (r1, h1) = mathRandom h0;
          (r2, h2) = mathRandom h1;
          (r3, h3) = mathRandom h2;
          (r4, h4) = mathRandom h3;
          (r5, h5) = mathRandom h4;
          (r6, h6) = mathRandom h5
      in (\<lparr>P_x = r1 * real (h_width h0),
           P_y = r2 * real (h_height h0),
           P_vx = (r3 - 0.5) * 0.5,
           P_vy = (r4 - 0.5) * 0.5,
           P_radius = r5 * 2 + 1,
           P_opacity = r6 * 0.5 + 0.2\<rparr>, h6))"

text \<open>\<^verbatim>\<open>Particle.update\<close>: move, then reverse a velocity component outside the canvas.\<close>

definition Particle_update :: "nat \<Rightarrow> nat \<Rightarrow> Particle \<Rightarrow> Particle" where
  "Particle_update width height p =
     (let x1 = P_x p + P_vx p;
          y1 = P_y p + P_vy p
      in p\<lparr>P_x := x1, P_y := y1,
           P_vx := (if x1 < 0 \<or> x1 > real width then - P_vx p else P_vx p),
           P_vy := (if y1 < 0 \<or> y1 > real height then - P_vy p else P_vy p)\<rparr>)"

text \<open>
  The first \<^verbatim>\<open>forEach\<close> of \<^verbatim>\<open>animate\<close>: update and draw each particle.
  \<^verbatim>\<open>Particle.draw\<close> has no \<^verbatim>\<open>try\<close>: on a negative radius \<^verbatim>\<open>arc\<close> throws,
  the exception leaves \<^verbatim>\<open>animate\<close> and the flag returned is \<open>False\<close>.
\<close>

fun updateAndDraw :: "Particle list \<Rightarrow> host \<Rightarrow> Particle list \<times> host \<times> bool" where
  "updateAndDraw [] h = ([], h, True)"
| "updateAndDraw (p # ps) h =
     (let p' = Particle_update (h_width h) (h_height h) p
      in if P_radius p' < 0 then (p' # ps, emit (Uncaught ''IndexSizeError'') h, False)
         else (let (ps', h', ok) =
                     updateAndDraw ps (emit (Arc (P_x p') (P_y p') (P_radius p') (P_opacity p')) h)
               in (p' # ps', h', ok)))"

text \<open>The second \<^verbatim>\<open>forEach\<close>: every particle against the later ones.\<close>

definition hypot :: "real \<Rightarrow> real \<Rightarrow> real" where
  "hypot a b = sqrt (a * a + b * b)"

definition ip_lineOpacity :: "real \<Rightarrow> real" where
  "ip_lineOpacity distance = 0.1 * (1 - distance / connectionDistance)"

definition ip_connection :: "Particle list \<Rightarrow> nat \<Rightarrow> nat \<Rightarrow> (nat \<times> nat \<times> real) list" where
  "ip_connection ps i j =
     (let distance = hypot (P_x (ps ! i) - P_x (ps ! j)) (P_y (ps ! i) - P_y (ps ! j))
      in if distance < connectionDistance
         then [(i, j, ip_lineOpacity distance)]
         else [])"

definition ip_connections :: "Particle list \<Rightarrow> (nat \<times> nat \<times> real) list" where
  "ip_connections ps =
     concat (map (\<lambda>i. concat (map (\<lambda>j. ip_connection ps i j) [Suc i ..< length ps]))
                 [0 ..< length ps])"

definition ip_strokeLine :: "Particle list \<Rightarrow> nat \<times> nat \<times> real \<Rightarrow> effect" where
  "ip_strokeLine ps c = (case c of (i, j, a) \<Rightarrow>
     Line (P_x (ps ! i)) (P_y (ps ! i)) (P_x (ps ! j)) (P_y (ps ! j)) a)"

text \<open>
  The closure \<^verbatim>\<open>animate\<close>. Without a 2d context \<^verbatim>\<open>ctx\<close> is \<^verbatim>\<open>null\<close> and the
  first statement throws.
\<close>

definition ip_animate :: "host \<times> Particle list \<Rightarrow> host \<times> Particle list" where
  "ip_animate w = (case w of (h, ps) \<Rightarrow>
     (if \<not> h_context2d h then (emit (Uncaught ''TypeError'') h, ps)
      else
        (let h1 = emit (ClearRect (h_width h) (h_height h)) h;
             (ps', h2, ok) = updateAndDraw ps h1
         in if \<not> ok then (h2, ps')
            else
              (let h3 = emits (map (ip_strokeLine ps') (ip_connections ps')) h2;
                   (handle, h4) = requestAnimationFrame h3
               in (h4, ps')))))"

fun createParticles :: "nat \<Rightarrow> host \<times> Particle list \<Rightarrow> host \<times> Particle list" where
  "createParticles 0 w = w"
| "createParticles (Suc n) (h, ps) =
     (let (p, h') = Particle_new h in createParticles n (h', ps @ [p]))"

text \<open>
  Whether a call of \<^verbatim>\<open>animate\<close> returns without an exception. After the first
  call \<^verbatim>\<open>initializeParticles\<close> registers its resize listener; an exception
  of that call leaves the function before.
\<close>

definition ip_completes :: "host \<times> Particle list \<Rightarrow> bool" where
  "ip_completes w = (case w of (h, ps) \<Rightarrow>
     h_context2d h \<and> snd (snd (updateAndDraw ps (emit (ClearRect (h_width h) (h_height h)) h))))"

definition initializeParticles :: "host \<Rightarrow> host \<times> Particle list" where
  "initializeParticles h =
     (if \<not> h_canvas h then (h, [])
      else (let w = createParticles ip_particleCount
                      (h\<lparr>h_width := h_innerWidth h, h_height := h_innerHeight h\<rparr>, []);
                (h', ps) = ip_animate w
            in if ip_completes w then (h'\<lparr>h_listeners := True\<rparr>, ps) else (h', ps)))"

text \<open>Later frames of this loop: the pending callbacks run \<^verbatim>\<open>animate\<close> again.\<close>

definition ip_frame :: "host \<times> Particle list \<Rightarrow> host \<times> Particle list" where
  "ip_frame w = (case w of (h, ps) \<Rightarrow>
     foldl (\<lambda>w handle. ip_animate w) (h\<lparr>h_pending := []\<rparr>, ps) (h_pending h))"



subsection \<open>A concrete browser\<close>

text \<open>
  A desktop browser with WebGL, a window of 1280 by 720 pixels, a canvas
  element still at the default drawing size of 300 by 150, and a random
  source that always returns one half; the same with the reduced-motion
  preference set.
\<close>

definition desktop :: host where
  "desktop = \<lparr>h_lowPerformanceUA = False, h_innerWidth = 1280, h_innerHeight = 720,
     h_webgl = True, h_reducedMotion = False, h_canvas = True, h_context2d = True,
     h_offsetWidth = 1280, h_offsetHeight = 720, h_width = 300, h_height = 150,
     h_hidden = False, h_clock = 1000, h_random = (\<lambda>n. 1 / 2), h_randomCalls = 0,
     h_pending = [], h_lastHandle = 0, h_listeners = False, h_log = []\<rparr>"

definition calmDesktop :: host where
  "calmDesktop = desktop\<lparr>h_reducedMotion := True\<rparr>"

text \<open>
  Sample particles and systems: a particle of the class inside the canvas,
  one about to leave it on the left, two at distance 60; points of
  \<^verbatim>\<open>initializeParticles\<close> inside the canvas, far to the right of it, and two
  resting at distance 60; systems that pass the guard of \<^verbatim>\<open>animate\<close>.
\<close>

definition sampleParticle :: particle where
  "sampleParticle = \<lparr>p_x = 10, p_y = 10, p_vx = 0.25, p_vy = - 0.25, p_radius = 1,
     p_opacity = 0.7, p_pulseSpeed = roundDouble (pi / 200)\<rparr>"

definition leftParticle :: particle where
  "leftParticle = \<lparr>p_x = - 0.9, p_y = 10, p_vx = - 0.25, p_vy = 0.25, p_radius = 1,
     p_opacity = 0.7, p_pulseSpeed = 0.01\<rparr>"

definition samplePoint :: Particle where
  "samplePoint = \<lparr>P_x = 10, P_y = 10, P_vx = 0.25, P_vy = - 0.25, P_radius = 1, P_opacity = 0.5\<rparr>"

definition strayPoint :: Particle where
  "strayPoint = \<lparr>P_x = 700, P_y = 100, P_vx = 0.25, P_vy = 0, P_radius = 1, P_opacity = 0.5\<rparr>"





definition sampleSystem :: "particle psys" where
  "sampleSystem = \<lparr>canvas = True, ctx = True, particles = [sampleParticle], particleCount = 1,
     animationId = None, isVisible = True, frameCount = 1, lastFrame = 0\<rparr>"

definition samplePair :: "particle list" where
  "samplePair = [sampleParticle, sampleParticle\<lparr>p_x := 70\<rparr>]"

definition samplePoints :: "Particle list" where
  "samplePoints = [samplePoint\<lparr>P_vx := 0, P_vy := 0\<rparr>, samplePoint\<lparr>P_x := 70, P_vx := 0, P_vy := 0\<rparr>]"


definition wrapSystem :: "particle psys" where
  "wrapSystem = sampleSystem\<lparr>particles := [leftParticle], lastFrame := 900\<rparr>"

subsection \<open>Notions of the properties\<close>

text \<open>A position inside the canvas, and inside the canvas widened by a margin \<open>r\<close>.\<close>

definition inCanvas :: "nat \<Rightarrow> nat \<Rightarrow> real \<Rightarrow> real \<Rightarrow> bool" where
  "inCanvas width height x y = (0 \<le> x \<and> x \<le> real width \<and> 0 \<le> y \<and> y \<le> real height)"


text \<open>The velocity range of both initialisers: \<^verbatim>\<open>(Math.random() - 0.5) * 0.5\<close>.\<close>

definition initialVelocity :: "real \<Rightarrow> real \<Rightarrow> bool" where
  "initialVelocity vx vy = (\<bar>vx\<bar> \<le> 0.25 \<and> \<bar>vy\<bar> \<le> 0.25)"






text \<open>The position of a particle of the class right after the move, before the wrap.\<close>

definition movedX :: "int \<Rightarrow> particle \<Rightarrow> real" where
  "movedX frameTime p = p_x p + orElse (p_vx p) 0 * min (real_of_int frameTime * 0.016) 1"

definition movedY :: "int \<Rightarrow> particle \<Rightarrow> real" where
  "movedY frameTime p = p_y p + orElse (p_vy p) 0 * min (real_of_int frameTime * 0.016) 1"

text \<open>The particles of a frame of the class-based loop that passes the guard.\<close>

definition frameBody :: "host \<Rightarrow> particle psys \<Rightarrow> particle list" where
  "frameBody h s =
     map (updateParticle (h_width h) (h_height h) (h_clock h)
            (h_clock h - (if lastFrame s = 0 then h_clock h else lastFrame s))) (particles s)"

text \<open>Euclidean distance, between the particles at two indices.\<close>

definition euclid :: "real \<Rightarrow> real \<Rightarrow> real \<Rightarrow> real \<Rightarrow> real" where
  "euclid x1 y1 x2 y2 = sqrt ((x1 - x2)\<^sup>2 + (y1 - y2)\<^sup>2)"

definition distance :: "'a particle_scheme list \<Rightarrow> nat \<Rightarrow> nat \<Rightarrow> real" where
  "distance ps i j = euclid (p_x (ps ! i)) (p_y (ps ! i)) (p_x (ps ! j)) (p_y (ps ! j))"

definition ip_distance :: "Particle list \<Rightarrow> nat \<Rightarrow> nat \<Rightarrow> real" where
  "ip_distance ps i j = euclid (P_x (ps ! i)) (P_y (ps ! i)) (P_x (ps ! j)) (P_y (ps ! j))"



text \<open>
  The pending callbacks that belong to a value of \<^verbatim>\<open>animationId\<close>, and the
  invariant of the page: the pending callbacks are exactly the one the
  system holds the handle of, no handle is zero, listeners are only
  registered on a system with canvas and context, and the particle array
  holds at most 40 particles.
\<close>

definition chain :: "nat option \<Rightarrow> nat list" where
  "chain a = (case a of None \<Rightarrow> [] | Some handle \<Rightarrow> [handle])"

definition consistent :: "host \<times> ('p, 'z) psys_scheme \<Rightarrow> bool" where
  "consistent w = (case w of (h, s) \<Rightarrow>
     h_pending h = chain (animationId s) \<and> animationId s \<noteq> Some 0 \<and>
     (h_listeners h \<longrightarrow> canvas s \<and> ctx s) \<and> length (particles s) \<le> 40)"

text \<open>
  The constructor up to its call of \<^verbatim>\<open>resize\<close>, on the path where canvas and
  context exist and reduced motion is not requested.
\<close>

definition built :: "host \<Rightarrow> host \<times> particle psys" where
  "built h0 =
     (let h1 = emit (Call CheckWebGLSupport) (emit (Call GetParticleCount) h0);
          s = \<lparr>canvas = True, ctx = True, particles = [], particleCount = fst (getParticleCount h0),
               animationId = None, isVisible = True, frameCount = 0, lastFrame = 0\<rparr>
      in if h_webgl h0 then (h1, s)
         else (emit (Warn ''ParticleSystem: Hardware acceleration not available, using reduced particles'') h1,
               s\<lparr>particleCount := min (fst (getParticleCount h0)) 15\<rparr>))"

text \<open>The same for the enhanced class.\<close>

definition e_frameBody :: "host \<Rightarrow> esys \<Rightarrow> eparticle list" where
  "e_frameBody h s =
     map (e_updateParticle s (h_width h) (h_height h) (h_clock h)
            (h_clock h - (if lastFrame s = 0 then h_clock h else lastFrame s))) (particles s)"

definition e_built :: "host \<Rightarrow> host \<times> esys" where
  "e_built h0 =
     (let h1 = emit (Call CheckWebGLSupport) (emit (Call GetParticleCount) h0);
          s = \<lparr>canvas = True, ctx = True, particles = [], particleCount = fst (getParticleCount h0),
               animationId = None, isVisible = True, frameCount = 0, lastFrame = 0,
               mouseX = 0, mouseY = 0, mouseRadius = 150, interactionEnabled = True\<rparr>
      in if h_webgl h0 then (h1, s)
         else (emit (Warn ''ParticleSystem: Hardware acceleration not available, using reduced particles'') h1,
               s\<lparr>particleCount := min (fst (getParticleCount h0)) 15, interactionEnabled := False\<rparr>))"

text \<open>
  A page whose particle system never started: no listener, no pending
  frame, no handle, no particle, and a log with no frame request and no
  invocation of \<^verbatim>\<open>init\<close> or \<^verbatim>\<open>animate\<close>, and one of \<^verbatim>\<open>getParticleCount\<close>.
\<close>

definition idle :: "host \<times> ('p, 'z) psys_scheme \<Rightarrow> bool" where
  "idle w = (case w of (h, s) \<Rightarrow>
     \<not> h_listeners h \<and> h_pending h = [] \<and> animationId s = None \<and> particles s = [] \<and>
     frameRequests h = 0 \<and> calls Init h = 0 \<and> calls Animate h = 0 \<and> calls GetParticleCount h = 1)"

text \<open>The effect of \<^verbatim>\<open>Particle.draw\<close> on a particle of non-negative radius.\<close>

definition Particle_draw :: "Particle \<Rightarrow> effect" where
  "Particle_draw p = Arc (P_x p) (P_y p) (P_radius p) (P_opacity p)"



text \<open>
  The time between two frames as \<^verbatim>\<open>animate\<close> computes it, and a random
  source with the range of \<^verbatim>\<open>Math.random\<close>.
\<close>

definition frameTimeOf :: "host \<Rightarrow> ('p, 'z) psys_scheme \<Rightarrow> int" where
  "frameTimeOf h s = h_clock h - (if lastFrame s = 0 then h_clock h else lastFrame s)"

definition unitRandom :: "host \<Rightarrow> bool" where
  "unitRandom h = (\<forall>n. 0 \<le> h_random h n \<and> h_random h n < 1)"

text \<open>The least value of the pulse: \<^verbatim>\<open>0.3 - 0.2\<close> on the doubles of the two literals.\<close>

definition lowPulse :: real where
  "lowPulse = roundDouble 0.3 - roundDouble 0.2"

section \<open>Properties\<close>

subsection \<open>Basic facts\<close>

lemma emit_simps [simp]:
  "h_log (emit e h) = h_log h @ [e]"
  "h_pending (emit e h) = h_pending h"
  "h_listeners (emit e h) = h_listeners h"
  "h_width (emit e h) = h_width h"
  "h_height (emit e h) = h_height h"
  "h_clock (emit e h) = h_clock h"
  "h_lastHandle (emit e h) = h_lastHandle h"
  "h_reducedMotion (emit e h) = h_reducedMotion h"
  "h_webgl (emit e h) = h_webgl h"
  "h_context2d (emit e h) = h_context2d h"
  by (simp_all add: emit_def)

lemma emits_simps [simp]:
  "h_log (emits es h) = h_log h @ es"
  "h_pending (emits es h) = h_pending h"
  "h_listeners (emits es h) = h_listeners h"
  "h_width (emits es h) = h_width h"
  "h_height (emits es h) = h_height h"
  "h_clock (emits es h) = h_clock h"
  "h_lastHandle (emits es h) = h_lastHandle h"
  "h_context2d (emits es h) = h_context2d h"
  by (simp_all add: emits_def)

lemma sqrt_less_threshold: "0 < c \<Longrightarrow> sqrt x < c \<longleftrightarrow> x < c * c"
proof -
  assume c: "0 < c"
  have "sqrt x < sqrt (c * c) \<longleftrightarrow> x < c * c" by (rule real_sqrt_less_iff)
  moreover have "sqrt (c * c) = c" using c by simp
  ultimately show ?thesis by simp
qed

lemma sqrt_3600: "sqrt 3600 = 60"
proof -
  have "sqrt (60 * 60) = (60::real)" by (simp del: mult_numeral_left_semiring_numeral)
  then show ?thesis by simp
qed

subsection \<open>Rounding to doubles\<close>

lemma roundEven_range: "\<lfloor>r\<rfloor> \<le> roundEven r \<and> roundEven r \<le> \<lfloor>r\<rfloor> + 1"
  by (simp add: roundEven_def Let_def)

lemma roundEven_of_int [simp]: "roundEven (of_int n) = n"
  by (simp add: roundEven_def)

lemma roundEven_numeral [simp]: "roundEven (numeral n) = numeral n"
  using roundEven_of_int [of "numeral n"] by simp

lemma roundEven_mono: "r \<le> r' \<Longrightarrow> roundEven r \<le> roundEven r'"
proof -
  assume le: "r \<le> r'"
  then have f: "\<lfloor>r\<rfloor> \<le> \<lfloor>r'\<rfloor>" by (rule floor_mono)
  show ?thesis
  proof (cases "\<lfloor>r\<rfloor> = \<lfloor>r'\<rfloor>")
    case True
    with le show ?thesis by (auto simp: roundEven_def Let_def)
  next
    case False
    with f have "\<lfloor>r\<rfloor> + 1 \<le> \<lfloor>r'\<rfloor>" by simp
    with roundEven_range [of r] roundEven_range [of r'] show ?thesis by linarith
  qed
qed

lemma roundEven_error: "\<bar>of_int (roundEven r) - r\<bar> \<le> 1 / 2"
  unfolding roundEven_def Let_def by (auto simp: abs_le_iff)

lemma roundEven_minus: "roundEven (- r) = - roundEven r"
proof (cases "r = of_int \<lfloor>r\<rfloor>")
  case True
  then obtain n where "r = of_int n" ..
  then have "- r = of_int (- n)" by simp
  then show ?thesis using \<open>r = of_int n\<close> by (metis roundEven_of_int)
next
  case False
  then have c: "\<lfloor>- r\<rfloor> = - \<lfloor>r\<rfloor> - 1"
    by (metis add.inverse_inverse ceiling_altdef ceiling_def diff_minus_eq_add minus_diff_eq of_int_minus uminus_add_conv_diff)
  have fr: "0 < r - of_int \<lfloor>r\<rfloor>" "r - of_int \<lfloor>r\<rfloor> < 1"
    using False by linarith+
  show ?thesis
    unfolding roundEven_def Let_def c using fr by (auto simp: algebra_simps)
qed


lemma roundDouble_binade:
  assumes "2 powr of_int k \<le> \<bar>x\<bar>" and "\<bar>x\<bar> < 2 powr of_int (k + 1)"
  shows "roundDouble x = of_int (roundEven (x / 2 powr of_int (k - 52))) * 2 powr of_int (k - 52)"
proof -
  have "0 < (2::real) powr of_int k" by simp
  with assms(1) have pos: "0 < \<bar>x\<bar>" by linarith
  then have "\<lfloor>log 2 \<bar>x\<bar>\<rfloor> = k"
    using assms by (subst floor_log_eq_powr_iff) simp_all
  with pos show ?thesis by (auto simp: roundDouble_def Let_def)
qed

lemma binade_exists:
  "(x::real) \<noteq> 0 \<Longrightarrow> \<exists>k. 2 powr of_int k \<le> \<bar>x\<bar> \<and> \<bar>x\<bar> < 2 powr of_int (k + 1)"
proof -
  assume "x \<noteq> 0"
  then have pos: "0 < \<bar>x\<bar>" by simp
  have "\<lfloor>log 2 \<bar>x\<bar>\<rfloor> = \<lfloor>log 2 \<bar>x\<bar>\<rfloor>" ..
  with pos have "2 powr of_int \<lfloor>log 2 \<bar>x\<bar>\<rfloor> \<le> \<bar>x\<bar> \<and> \<bar>x\<bar> < 2 powr of_int (\<lfloor>log 2 \<bar>x\<bar>\<rfloor> + 1)"
    by (subst (asm) floor_log_eq_powr_iff) simp_all
  then show ?thesis ..
qed

lemma roundDouble_minus: "roundDouble (- x) = - roundDouble x"
  by (simp add: roundDouble_def Let_def roundEven_minus)

lemma two_powr_53: "(2::real) powr of_int (k + 1) = 2 ^ 53 * 2 powr of_int (k - 52)"
proof -
  have "(2::real) powr of_int (k + 1) = 2 powr (53 + of_int (k - 52))" by (simp add: algebra_simps)
  also have "\<dots> = 2 powr 53 * 2 powr of_int (k - 52)" by (rule powr_add)
  also have "(2::real) powr 53 = 2 ^ 53" by (simp add: powr_numeral)
  finally show ?thesis .
qed

lemma two_powr_52: "(2::real) powr of_int k = 2 ^ 52 * 2 powr of_int (k - 52)"
proof -
  have "(2::real) powr of_int k = 2 powr (52 + of_int (k - 52))" by simp
  also have "\<dots> = 2 powr 52 * 2 powr of_int (k - 52)" by (rule powr_add)
  also have "(2::real) powr 52 = 2 ^ 52" by (simp add: powr_numeral)
  finally show ?thesis .
qed

text \<open>Within its binade a positive number rounds to a number of the closed binade.\<close>

lemma roundDouble_in_binade:
  assumes "2 powr of_int k \<le> x" and "x < 2 powr of_int (k + 1)"
  shows "2 powr of_int k \<le> roundDouble x" and "roundDouble x \<le> 2 powr of_int (k + 1)"
proof -
  let ?u = "(2::real) powr of_int (k - 52)"
  have u: "0 < ?u" by simp
  have "0 < (2::real) powr of_int k" by simp
  with assms(1) have x: "0 < x" by linarith
  then have r: "roundDouble x = of_int (roundEven (x / ?u)) * ?u"
    using roundDouble_binade [of k x] assms by simp
  have "2 ^ 52 * ?u \<le> x" using assms(1) unfolding two_powr_52 [of k] .
  then have "of_int (2 ^ 52) \<le> x / ?u"
    using u by (simp add: pos_le_divide_eq)
  then have "2 ^ 52 \<le> roundEven (x / ?u)"
    using roundEven_mono [of "of_int (2 ^ 52)" "x / ?u"] by simp
  then have "(2::real) ^ 52 \<le> of_int (roundEven (x / ?u))"
    by (metis of_int_le_iff of_int_numeral of_int_power)
  then have "2 ^ 52 * ?u \<le> of_int (roundEven (x / ?u)) * ?u"
    using u by simp
  then show "2 powr of_int k \<le> roundDouble x" unfolding r two_powr_52 [of k] .
  have "x < 2 ^ 53 * ?u" using assms(2) unfolding two_powr_53 [of k] .
  then have "x / ?u \<le> of_int (2 ^ 53)"
    using u by (simp add: pos_divide_le_eq less_imp_le)
  then have "roundEven (x / ?u) \<le> 2 ^ 53"
    using roundEven_mono [of "x / ?u" "of_int (2 ^ 53)"] by simp
  then have "of_int (roundEven (x / ?u)) \<le> (2::real) ^ 53"
    by (metis of_int_le_iff of_int_numeral of_int_power)
  then have "of_int (roundEven (x / ?u)) * ?u \<le> 2 ^ 53 * ?u"
    using u by simp
  then show "roundDouble x \<le> 2 powr of_int (k + 1)" unfolding r two_powr_53 [of k] .
qed

lemma roundDouble_mono_pos:
  assumes "0 < x" and "x \<le> y"
  shows "roundDouble x \<le> roundDouble y"
proof -
  from assms have y: "0 < y" by simp
  obtain k where k: "2 powr of_int k \<le> x" "x < 2 powr of_int (k + 1)"
    using binade_exists [of x] assms(1) by auto
  obtain l where l: "2 powr of_int l \<le> y" "y < 2 powr of_int (l + 1)"
    using binade_exists [of y] y by auto
  have "2 powr of_int k < (2::real) powr of_int (l + 1)" using k(1) l(2) assms(2) by linarith
  then have kl: "k \<le> l" by simp
  show ?thesis
  proof (cases "k = l")
    case True
    let ?u = "(2::real) powr of_int (k - 52)"
    have "x / ?u \<le> y / ?u" using assms(2) by (simp add: divide_right_mono)
    then have "roundEven (x / ?u) \<le> roundEven (y / ?u)" by (rule roundEven_mono)
    then have "of_int (roundEven (x / ?u)) * ?u \<le> of_int (roundEven (y / ?u)) * ?u" by simp
    then show ?thesis
      using roundDouble_binade [of k x] roundDouble_binade [of k y] k l assms(1) y True by simp
  next
    case False
    with kl have "k + 1 \<le> l" by simp
    then have "(2::real) powr of_int (k + 1) \<le> 2 powr of_int l" by simp
    with roundDouble_in_binade(2) [OF k] roundDouble_in_binade(1) [OF l] show ?thesis by linarith
  qed
qed

lemma roundDouble_pos: "0 < x \<Longrightarrow> 0 < roundDouble x"
proof -
  assume x: "0 < x"
  obtain k where k: "2 powr of_int k \<le> x" "x < 2 powr of_int (k + 1)"
    using binade_exists [of x] x by auto
  have "0 < (2::real) powr of_int k" by simp
  with roundDouble_in_binade(1) [OF k] show ?thesis by linarith
qed

lemma roundDouble_zero [simp]: "roundDouble 0 = 0"
  by (simp add: roundDouble_def)

lemma roundDouble_mono: "x \<le> y \<Longrightarrow> roundDouble x \<le> roundDouble y"
proof -
  assume le: "x \<le> y"
  consider "0 < x" | "x \<le> 0" "0 \<le> y" | "y < 0" by linarith
  then show ?thesis
  proof cases
    case 1
    from 1 le show ?thesis by (rule roundDouble_mono_pos)
  next
    case 2
    have "roundDouble x \<le> 0"
      using 2(1) roundDouble_pos [of "- x"] by (cases "x = 0") (simp_all add: roundDouble_minus)
    moreover have "0 \<le> roundDouble y"
      using 2(2) roundDouble_pos [of y] by (cases "y = 0") simp_all
    ultimately show ?thesis by simp
  next
    case 3
    then have "0 < - y" "- y \<le> - x" using le by simp_all
    then have "roundDouble (- y) \<le> roundDouble (- x)" by (rule roundDouble_mono_pos)
    then show ?thesis by (simp add: roundDouble_minus)
  qed
qed

lemma roundDouble_error: "\<bar>roundDouble x - x\<bar> \<le> \<bar>x\<bar> / 2 ^ 53"
proof (cases "x = 0")
  case True
  then show ?thesis by simp
next
  case False
  then obtain k where k: "2 powr of_int k \<le> \<bar>x\<bar>" "\<bar>x\<bar> < 2 powr of_int (k + 1)"
    using binade_exists by blast
  let ?u = "(2::real) powr of_int (k - 52)"
  have u: "0 < ?u" by simp
  have "roundDouble x - x = (of_int (roundEven (x / ?u)) - x / ?u) * ?u"
    using roundDouble_binade [OF k] u by (simp add: algebra_simps)
  then have "\<bar>roundDouble x - x\<bar> = \<bar>of_int (roundEven (x / ?u)) - x / ?u\<bar> * ?u"
    using u by (simp add: abs_mult)
  also have "\<dots> \<le> 1 / 2 * ?u"
    using roundEven_error [of "x / ?u"] u by (intro mult_right_mono) simp_all
  also have "\<dots> = 2 powr of_int k / 2 ^ 53"
    by (simp add: two_powr_52 [of k])
  also have "\<dots> \<le> \<bar>x\<bar> / 2 ^ 53"
    using k(1) by (simp add: divide_right_mono)
  finally show ?thesis .
qed

lemma roundDouble_small:
  assumes "1 / 2 ^ n \<le> \<bar>x\<bar>" and "\<bar>x\<bar> < 2 / 2 ^ n"
  shows "roundDouble x = of_int (roundEven (x * 2 ^ (n + 52))) / 2 ^ (n + 52)"
proof -
  have p: "(2::real) powr of_int (- int n) = 1 / 2 ^ n"
    by (simp add: powr_minus powr_realpow divide_inverse)
  have q: "(2::real) powr of_int (- int n + 1) = 2 / 2 ^ n"
  proof -
    have "(2::real) powr of_int (- int n + 1) = 2 powr (1 + of_int (- int n))"
      by (simp add: algebra_simps)
    also have "\<dots> = 2 powr 1 * 2 powr of_int (- int n)" by (rule powr_add)
    finally show ?thesis unfolding p by simp
  qed
  have u: "(2::real) powr of_int (- int n - 52) = 1 / 2 ^ (n + 52)"
  proof -
    have "(2::real) powr of_int (- int n - 52) = 2 powr of_int (- int (n + 52))" by simp
    also have "\<dots> = 1 / 2 ^ (n + 52)"
      by (simp only: of_int_minus of_int_of_nat_eq powr_minus powr_realpow) (simp add: divide_inverse)
    finally show ?thesis .
  qed
  from roundDouble_binade [of "- int n" x] assms show ?thesis
    unfolding p q u by simp
qed

lemma double_02: "roundDouble 0.2 = 3602879701896397 / 2 ^ 54"
  using roundDouble_small [of 3 "0.2"] by (simp add: roundEven_def)

lemma double_03: "roundDouble 0.3 = 5404319552844595 / 2 ^ 54"
  using roundDouble_small [of 2 "0.3"] by (simp add: roundEven_def)

lemma double_one: "roundDouble 1 = 1" "roundDouble (- 1) = - 1"
  using roundDouble_small [of 0 1] by (simp_all add: roundDouble_minus)

lemma double_half: "roundDouble (1 / 2) = 1 / 2"
  using roundDouble_small [of 1 "1 / 2"] by simp

lemma double_02_fixed: "roundDouble (3602879701896397 / 2 ^ 54) = 3602879701896397 / 2 ^ 54"
  using roundDouble_small [of 3 "3602879701896397 / 2 ^ 54"] by simp

lemma lowPulse_value: "lowPulse = 900719925474099 / 2 ^ 53"
  unfolding lowPulse_def double_02 double_03 by simp

lemma lowPulse_fixed: "roundDouble (900719925474099 / 2 ^ 53) = 900719925474099 / 2 ^ 53"
  using roundDouble_small [of 4 "900719925474099 / 2 ^ 53"] by simp

lemma lowPulse_below: "lowPulse < 0.1"
  by (simp add: lowPulse_value)

lemma mathSin_range: "- 1 \<le> mathSin x \<and> mathSin x \<le> 1"
proof -
  have "roundDouble (- 1) \<le> roundDouble (sin x)" by (rule roundDouble_mono) simp
  moreover have "roundDouble (sin x) \<le> roundDouble 1" by (rule roundDouble_mono) simp
  ultimately show ?thesis by (simp add: mathSin_def double_one)
qed

lemma pulse_bounds:
  assumes "- 1 \<le> s" and "s \<le> 1"
  shows "lowPulse \<le> roundDouble (roundDouble 0.3 + roundDouble (roundDouble 0.2 * s))"
    and "roundDouble (roundDouble 0.3 + roundDouble (roundDouble 0.2 * s)) \<le> 1 / 2"
proof -
  let ?c2 = "3602879701896397 / 2 ^ 54 :: real" and ?c3 = "5404319552844595 / 2 ^ 54 :: real"
  have "- ?c2 \<le> ?c2 * s" and "?c2 * s \<le> ?c2" using assms by simp_all
  then have "roundDouble (- ?c2) \<le> roundDouble (?c2 * s)" and "roundDouble (?c2 * s) \<le> roundDouble ?c2"
    by (simp_all only: roundDouble_mono)
  then have t: "- ?c2 \<le> roundDouble (?c2 * s)" "roundDouble (?c2 * s) \<le> ?c2"
    unfolding roundDouble_minus double_02_fixed by simp_all
  then have "?c3 - ?c2 \<le> ?c3 + roundDouble (?c2 * s)" and "?c3 + roundDouble (?c2 * s) \<le> ?c3 + ?c2"
    by simp_all
  then have "roundDouble (?c3 - ?c2) \<le> roundDouble (?c3 + roundDouble (?c2 * s))"
    and "roundDouble (?c3 + roundDouble (?c2 * s)) \<le> roundDouble (?c3 + ?c2)"
    by (simp_all only: roundDouble_mono)
  moreover have "?c3 - ?c2 = 900719925474099 / 2 ^ 53" and "?c3 + ?c2 = 1 / 2" by simp_all
  ultimately have "900719925474099 / 2 ^ 53 \<le> roundDouble (?c3 + roundDouble (?c2 * s))"
    and "roundDouble (?c3 + roundDouble (?c2 * s)) \<le> 1 / 2"
    using lowPulse_fixed double_half by simp_all
  then show "lowPulse \<le> roundDouble (roundDouble 0.3 + roundDouble (roundDouble 0.2 * s))"
    and "roundDouble (roundDouble 0.3 + roundDouble (roundDouble 0.2 * s)) \<le> 1 / 2"
    unfolding lowPulse_value double_02 double_03 by simp_all
qed

lemma pulse_at_minus_one:
  "roundDouble (roundDouble 0.3 + roundDouble (roundDouble 0.2 * (- 1))) = lowPulse"
proof -
  have "roundDouble (3602879701896397 / 2 ^ 54 * (- 1)) = - (3602879701896397 / 2 ^ 54)"
    using roundDouble_minus [of "3602879701896397 / 2 ^ 54"] double_02_fixed by simp
  then show ?thesis
    unfolding lowPulse_value double_02 double_03 using lowPulse_fixed by simp
qed

text \<open>Near \<open>3\<pi>/2\<close> the sine is within \<open>2\<^sup>-\<^sup>5\<^sup>5\<close> of \<open>-1\<close> and rounds to \<open>-1\<close>.\<close>

lemma sin_near_minus_one:
  assumes "\<bar>x - 3 * pi / 2\<bar> \<le> 1 / 2 ^ 27"
  shows "- 1 \<le> sin x" and "sin x \<le> - 1 + 1 / 2 ^ 55"
proof -
  define d where "d = x - 3 * pi / 2"
  have x: "x = 3 * pi / 2 + d" by (simp add: d_def)
  have "sin (3 * pi / 2) = - 1" and "cos (3 * pi / 2) = 0"
    using sin_3over2_pi cos_3over2_pi by (simp_all add: field_simps)
  then have s: "sin x = - cos d"
    unfolding x sin_add by simp
  have "cos d = 1 - 2 * (sin (d / 2))\<^sup>2"
    using cos_double_sin [of "d / 2"] by simp
  moreover have "(sin (d / 2))\<^sup>2 \<le> (d / 2)\<^sup>2"
    using abs_sin_x_le_abs_x [of "d / 2"] by (metis abs_le_square_iff)
  moreover have "(d / 2)\<^sup>2 \<le> (1 / 2 ^ 28)\<^sup>2"
  proof -
    have "\<bar>d / 2\<bar> \<le> \<bar>1 / 2 ^ 28 :: real\<bar>" using assms by (simp add: d_def)
    then show ?thesis by (simp only: abs_le_square_iff)
  qed
  ultimately have "1 - 2 * (1 / 2 ^ 28)\<^sup>2 \<le> cos d" by linarith
  moreover have "2 * (1 / 2 ^ 28)\<^sup>2 = (1 / 2 ^ 55 :: real)" by (simp add: power2_eq_square)
  ultimately show "sin x \<le> - 1 + 1 / 2 ^ 55" unfolding s by linarith
  show "- 1 \<le> sin x" by simp
qed

lemma double_near_minus_one: "roundDouble (- 1 + 1 / 2 ^ 55) = - 1"
  using roundDouble_small [of 1 "- 1 + 1 / 2 ^ 55"] by (simp add: roundEven_def)

lemma mathSin_near: "\<bar>x - 3 * pi / 2\<bar> \<le> 1 / 2 ^ 27 \<Longrightarrow> mathSin x = - 1"
proof -
  assume a: "\<bar>x - 3 * pi / 2\<bar> \<le> 1 / 2 ^ 27"
  note s = sin_near_minus_one [OF a]
  have "roundDouble (- 1) \<le> roundDouble (sin x)" using s(1) by (rule roundDouble_mono)
  moreover have "roundDouble (sin x) \<le> roundDouble (- 1 + 1 / 2 ^ 55)" using s(2) by (rule roundDouble_mono)
  ultimately show ?thesis unfolding mathSin_def double_near_minus_one double_one by simp
qed

lemma pulse_argument:
  "\<bar>roundDouble (300 * roundDouble (pi / 200)) - 3 * pi / 2\<bar> \<le> 1 / 2 ^ 27"
proof -
  define ps where "ps = roundDouble (pi / 200)"
  have e1: "\<bar>ps - pi / 200\<bar> \<le> pi / 200 / 2 ^ 53"
    using roundDouble_error [of "pi / 200"] by (simp add: ps_def)
  have p4: "pi < 4" "0 < pi" using pi_less_4 pi_gt_zero by simp_all
  have "pi / 200 / 2 ^ 53 \<le> pi / 200" using p4 by simp
  with e1 have ps: "0 \<le> ps" "ps \<le> pi / 100" by linarith+
  have e2: "\<bar>roundDouble (300 * ps) - 300 * ps\<bar> \<le> 300 * ps / 2 ^ 53"
    using roundDouble_error [of "300 * ps"] ps(1) by simp
  have "300 * ps / 2 ^ 53 \<le> 12 / 2 ^ 53" using ps(2) p4 by simp
  moreover have "300 * \<bar>ps - pi / 200\<bar> \<le> 6 / 2 ^ 53" using e1 p4 by simp
  moreover have "\<bar>roundDouble (300 * ps) - 3 * pi / 2\<bar> \<le>
      \<bar>roundDouble (300 * ps) - 300 * ps\<bar> + 300 * \<bar>ps - pi / 200\<bar>"
  proof -
    have "roundDouble (300 * ps) - 3 * pi / 2 = (roundDouble (300 * ps) - 300 * ps) + 300 * (ps - pi / 200)"
      by simp
    also have "\<bar>\<dots>\<bar> \<le> \<bar>roundDouble (300 * ps) - 300 * ps\<bar> + \<bar>300 * (ps - pi / 200)\<bar>"
      by (rule abs_triangle_ineq)
    also have "\<bar>300 * (ps - pi / 200)\<bar> = 300 * \<bar>ps - pi / 200\<bar>"
      by (simp only: abs_mult)
    finally show ?thesis .
  qed
  moreover have "(12 / 2 ^ 53 + 6 / 2 ^ 53 :: real) = 18 / 2 ^ 53" by simp
  ultimately have "\<bar>roundDouble (300 * ps) - 3 * pi / 2\<bar> \<le> 18 / 2 ^ 53"
    using e2 by linarith
  moreover have "(18 / 2 ^ 53 :: real) \<le> 1 / 2 ^ 27" by simp
  ultimately show ?thesis unfolding ps_def by linarith
qed

lemma pulse_speed_positive: "0 < roundDouble (pi / 200)"
  by (rule roundDouble_pos) simp


subsection \<open>One particle of the class: wrap, velocity, opacity\<close>


lemma updateParticle_radius: "p_radius (updateParticle W H now ft p) = p_radius p"
  by (simp add: updateParticle_def Let_def)





lemma updateParticle_pulse:
  "p_opacity (updateParticle W H now ft p) =
     roundDouble (roundDouble 0.3 + roundDouble (roundDouble 0.2 *
       mathSin (roundDouble (real_of_int now * orElse (p_pulseSpeed p) (roundDouble 0.01)))))"
  by (simp add: updateParticle_def Let_def)

lemma updateParticle_opacity:
  "lowPulse \<le> p_opacity (updateParticle W H now ft p) \<and> p_opacity (updateParticle W H now ft p) \<le> 1 / 2"
  unfolding updateParticle_pulse using pulse_bounds mathSin_range by blast

lemma double_001: "roundDouble 0.01 = 5764607523034235 / 2 ^ 59"
  using roundDouble_small [of 7 "0.01"] by (simp add: roundEven_def)

lemma pulse_speed_range: "0.01 \<le> roundDouble (pi / 200) \<and> roundDouble (pi / 200) < 0.03"
proof -
  have "(0.01::real) \<le> pi / 200" using pi_ge_two by simp
  then have "roundDouble 0.01 \<le> roundDouble (pi / 200)" by (rule roundDouble_mono)
  then have lower: "0.01 \<le> roundDouble (pi / 200)" unfolding double_001 by simp
  have e: "\<bar>roundDouble (pi / 200) - pi / 200\<bar> \<le> pi / 200 / 2 ^ 53"
    using roundDouble_error [of "pi / 200"] by simp
  have p: "pi / 200 < 1 / 50" using pi_less_4 by simp
  have "pi / 200 / 2 ^ 53 \<le> 1 / 1000" using pi_less_4 by simp
  with e have "roundDouble (pi / 200) \<le> pi / 200 + 1 / 1000" by linarith
  with p have "roundDouble (pi / 200) < 3 / 100" by linarith
  with lower show ?thesis by simp
qed

lemma sample_pulse: "p_opacity (updateParticle W H 300 ft sampleParticle) = lowPulse"
proof -
  have "mathSin (roundDouble (300 * roundDouble (pi / 200))) = - 1"
    by (rule mathSin_near) (rule pulse_argument)
  moreover have "orElse (p_pulseSpeed sampleParticle) (roundDouble 0.01) = roundDouble (pi / 200)"
    using pulse_speed_positive by (simp add: orElse_def sampleParticle_def)
  ultimately show ?thesis
    unfolding updateParticle_pulse using pulse_at_minus_one by simp
qed

lemma updateParticle_forgets_opacity:
  "updateParticle W H now ft (p\<lparr>p_opacity := a\<rparr>) = updateParticle W H now ft p"
  by (simp add: updateParticle_def Let_def)

subsection \<open>One particle of the function: bounce\<close>




lemma Particle_update_radius: "P_radius (Particle_update W H q) = P_radius q"
  by (simp add: Particle_update_def Let_def)









subsection \<open>A frame of the class-based loop\<close>

lemma frameBody_length [simp]: "length (frameBody h s) = length (particles s)"
  by (simp add: frameBody_def)

lemma animate_suspended:
  "\<not> isVisible s \<or> \<not> ctx s \<or> \<not> canvas s \<Longrightarrow>
   animate (h, s) = (emit (Call Animate) h, s\<lparr>animationId := None\<rparr>)"
  by (simp add: animate_def Let_def)

lemma animate_running:
  assumes "isVisible s" and "ctx s" and "canvas s"
  shows "snd (animate (h, s)) =
           s\<lparr>lastFrame := h_clock h, particles := frameBody h s,
             frameCount := frameCount s + 1, animationId := Some (Suc (h_lastHandle h))\<rparr>"
    and "h_log (fst (animate (h, s))) =
           h_log h @ [Call Animate, FillRect (h_width h) (h_height h)] @
           map drawParticle (frameBody h s) @
           (if frameCount s mod 2 = 0
            then Call DrawConnections # map (strokeLine (frameBody h s)) (connections (frameBody h s))
            else []) @
           [RequestFrame (Suc (h_lastHandle h))]"
    and "h_pending (fst (animate (h, s))) = h_pending h @ [Suc (h_lastHandle h)]"
    and "h_listeners (fst (animate (h, s))) = h_listeners h"
    and "h_lastHandle (fst (animate (h, s))) = Suc (h_lastHandle h)"
  using assms
  by (simp_all add: animate_def Let_def drawConnections_def requestAnimationFrame_def frameBody_def
        split: prod.splits)

lemma animate_refs:
  "canvas (snd (animate (h, s))) = canvas s" "ctx (snd (animate (h, s))) = ctx s"
  by (simp_all add: animate_def Let_def drawConnections_def requestAnimationFrame_def
        split: prod.splits if_splits)

text \<open>
  Claim C10, as the code has it. After a frame of the loop of \<^verbatim>\<open>script.js\<close>
  that passes the guard, the opacity of every particle is the value of
  \<^verbatim>\<open>0.3 + 0.2 * Math.sin(now * (particle.pulseSpeed || 0.01))\<close> in double
  arithmetic; it lies between \<^term>\<open>lowPulse\<close>, which is
  \<open>900719925474099 / 2\<^sup>5\<^sup>3\<close> (printed 0.09999999999999998), and 0.5; and the
  particles after the frame do not depend on the opacities before it: the
  initialised opacity is discarded by the first frame.
\<close>

theorem pulse_opacity_range:
  assumes "isVisible s" and "ctx s" and "canvas s"
  shows "map p_opacity (particles (snd (animate (h, s)))) =
           map (\<lambda>p. roundDouble (roundDouble 0.3 + roundDouble (roundDouble 0.2 *
                  mathSin (roundDouble (real_of_int (h_clock h) * orElse (p_pulseSpeed p) (roundDouble 0.01))))))
               (particles s) \<and>
         (\<forall>p \<in> set (particles (snd (animate (h, s)))). lowPulse \<le> p_opacity p \<and> p_opacity p \<le> 0.5) \<and>
         lowPulse = 900719925474099 / 2 ^ 53 \<and>
         particles (snd (animate (h, s\<lparr>particles := map (\<lambda>p. p\<lparr>p_opacity := f p\<rparr>) (particles s)\<rparr>))) =
         particles (snd (animate (h, s)))"
proof -
  have ps: "particles (snd (animate (h, s))) = frameBody h s"
    by (simp add: animate_running(1) [OF assms])
  have a: "map p_opacity (particles (snd (animate (h, s)))) =
           map (\<lambda>p. roundDouble (roundDouble 0.3 + roundDouble (roundDouble 0.2 *
                  mathSin (roundDouble (real_of_int (h_clock h) * orElse (p_pulseSpeed p) (roundDouble 0.01))))))
               (particles s)"
    unfolding ps frameBody_def by (simp add: updateParticle_pulse)
  have b: "\<forall>p \<in> set (particles (snd (animate (h, s)))). lowPulse \<le> p_opacity p \<and> p_opacity p \<le> 0.5"
    unfolding ps frameBody_def using updateParticle_opacity by auto
  let ?s = "s\<lparr>particles := map (\<lambda>p. p\<lparr>p_opacity := f p\<rparr>) (particles s)\<rparr>"
  have "isVisible ?s" "ctx ?s" "canvas ?s" using assms by simp_all
  from animate_running(1) [OF this, of h] animate_running(1) [OF assms, of h]
  have c: "particles (snd (animate (h, ?s))) = particles (snd (animate (h, s)))"
    by (simp add: frameBody_def updateParticle_forgets_opacity)
  from a b lowPulse_value c show ?thesis by - (intro conjI; assumption)
qed

theorem pulse_opacity_range_witness:
  "isVisible sampleSystem \<and> ctx sampleSystem \<and> canvas sampleSystem \<and>
   p_opacity sampleParticle = 0.7 \<and>
   particles (snd (animate (desktop\<lparr>h_clock := 300\<rparr>, sampleSystem))) \<noteq> [] \<and>
   lowPulse \<le> p_opacity (hd (particles (snd (animate (desktop\<lparr>h_clock := 300\<rparr>, sampleSystem))))) \<and>
   p_opacity (hd (particles (snd (animate (desktop\<lparr>h_clock := 300\<rparr>, sampleSystem))))) \<le> 0.5"
proof -
  let ?ps = "particles (snd (animate (desktop\<lparr>h_clock := 300\<rparr>, sampleSystem)))"
  have v: "isVisible sampleSystem" "ctx sampleSystem" "canvas sampleSystem"
    by (simp_all add: sampleSystem_def)
  have "particles sampleSystem = [sampleParticle]" and "lastFrame sampleSystem = 0"
    and "h_width desktop = 300" and "h_height desktop = 150"
    by (simp_all add: sampleSystem_def desktop_def)
  then have ps: "?ps = [updateParticle 300 150 300 0 sampleParticle]"
    by (simp add: animate_running(1) [OF v] frameBody_def)
  have "hd ?ps \<in> set ?ps" using ps by simp
  with pulse_opacity_range [OF v, of "desktop\<lparr>h_clock := 300\<rparr>"]
  have "lowPulse \<le> p_opacity (hd ?ps) \<and> p_opacity (hd ?ps) \<le> 0.5" by blast
  with v ps show ?thesis by (simp add: sampleParticle_def)
qed

text \<open>
  The claim as stated puts the opacity in \<open>[0.1, 0.5]\<close>. At the clock reading
  300 the sample particle, whose pulse speed is the double nearest to
  \<open>\<pi> / 200\<close> (inside the initialised range), gets the opacity
  \<open>900719925474099 / 2\<^sup>5\<^sup>3\<close>, below 0.1: the sine rounds to \<open>-1\<close> and the
  literals \<open>0.3\<close> and \<open>0.2\<close> are the doubles \<open>5404319552844595 / 2\<^sup>5\<^sup>4\<close> and
  \<open>3602879701896397 / 2\<^sup>5\<^sup>4\<close>.
\<close>

theorem pulse_below_counterexample:
  "isVisible sampleSystem \<and> ctx sampleSystem \<and> canvas sampleSystem \<and>
   particles sampleSystem = [sampleParticle] \<and>
   0.01 \<le> p_pulseSpeed sampleParticle \<and> p_pulseSpeed sampleParticle < 0.03 \<and>
   p_opacity (hd (particles (snd (animate (desktop\<lparr>h_clock := 300\<rparr>, sampleSystem))))) =
     900719925474099 / 2 ^ 53 \<and>
   (900719925474099 / 2 ^ 53 :: real) < 0.1"
proof -
  let ?ps = "particles (snd (animate (desktop\<lparr>h_clock := 300\<rparr>, sampleSystem)))"
  have v: "isVisible sampleSystem" "ctx sampleSystem" "canvas sampleSystem"
    by (simp_all add: sampleSystem_def)
  have p: "particles sampleSystem = [sampleParticle]" and "lastFrame sampleSystem = 0"
    and "h_width desktop = 300" and "h_height desktop = 150"
    by (simp_all add: sampleSystem_def desktop_def)
  then have ps: "?ps = [updateParticle 300 150 300 0 sampleParticle]"
    by (simp add: animate_running(1) [OF v] frameBody_def)
  have o: "p_opacity (hd ?ps) = 900719925474099 / 2 ^ 53"
    unfolding ps using sample_pulse [of 300 150 0] lowPulse_value by simp
  have r: "0.01 \<le> p_pulseSpeed sampleParticle \<and> p_pulseSpeed sampleParticle < 0.03"
    using pulse_speed_range by (simp add: sampleParticle_def)
  have "(900719925474099 / 2 ^ 53 :: real) < 0.1" by simp
  with v p o r show ?thesis by blast
qed

subsection \<open>The connection pass\<close>

lemma distance_distanceSquared: "distance ps i j = sqrt (distanceSquared (ps ! i) (ps ! j))"
  by (simp add: distance_def euclid_def distanceSquared_def power2_eq_square)

lemma ip_distance_hypot:
  "ip_distance ps i j = hypot (P_x (ps ! i) - P_x (ps ! j)) (P_y (ps ! i) - P_y (ps ! j))"
  by (simp add: ip_distance_def euclid_def hypot_def power2_eq_square)

lemma connections_iff:
  "(i, j, a) \<in> set (connections ps) \<longleftrightarrow>
     i < j \<and> j < length ps \<and> distance ps i j < 80 \<and> a = lineOpacity (distance ps i j)"
  by (auto simp: connections_def connection_def distance_distanceSquared
        sqrt_less_threshold maxDistance_def split: if_splits)

lemma ip_connections_iff:
  "(i, j, a) \<in> set (ip_connections ps) \<longleftrightarrow>
     i < j \<and> j < length ps \<and> ip_distance ps i j < 150 \<and> a = ip_lineOpacity (ip_distance ps i j)"
  by (auto simp: ip_connections_def ip_connection_def Let_def ip_distance_hypot
        connectionDistance_def split: if_splits)

lemma lineOpacity_decreasing: "d1 < d2 \<Longrightarrow> lineOpacity d2 < lineOpacity d1"
  by (simp add: lineOpacity_def maxDistance_def)

lemma ip_lineOpacity_decreasing: "d1 < d2 \<Longrightarrow> ip_lineOpacity d2 < ip_lineOpacity d1"
  by (simp add: ip_lineOpacity_def connectionDistance_def)

lemma samplePair_distance: "distance samplePair 0 1 = 60"
  by (simp add: distance_def euclid_def samplePair_def sampleParticle_def sqrt_3600)

lemma samplePoints_distance: "ip_distance samplePoints 0 1 = 60"
  by (simp add: ip_distance_def euclid_def samplePoints_def samplePoint_def sqrt_3600)

text \<open>
  Claim C2, as the code has it. In one connection pass a line is drawn
  between the particles at two indices \<open>i < j\<close> exactly when their Euclidean
  distance is below the threshold: 80 in the class \<^verbatim>\<open>ParticleSystem\<close>, where
  the line's opacity is \<open>(1 - distance / 80) * 0.15\<close>, and 150 in
  \<^verbatim>\<open>initializeParticles\<close>, where it is \<open>0.1 * (1 - distance / 150)\<close>. Both
  opacities are strictly decreasing in the distance (everywhere, so on the
  interval from 0 to the threshold).
\<close>

theorem connection_rule:
  assumes "i < j" and "j < length ps" and "k < l" and "l < length qs" and "d1 < d2"
  shows "((\<exists>a. (i, j, a) \<in> set (connections ps)) \<longleftrightarrow> distance ps i j < 80) \<and>
         (\<forall>a. (i, j, a) \<in> set (connections ps) \<longrightarrow> a = (1 - distance ps i j / 80) * 0.15) \<and>
         lineOpacity d1 = (1 - d1 / 80) * 0.15 \<and> lineOpacity d2 < lineOpacity d1 \<and>
         ((\<exists>a. (k, l, a) \<in> set (ip_connections qs)) \<longleftrightarrow> ip_distance qs k l < 150) \<and>
         (\<forall>a. (k, l, a) \<in> set (ip_connections qs) \<longrightarrow> a = 0.1 * (1 - ip_distance qs k l / 150)) \<and>
         ip_lineOpacity d1 = 0.1 * (1 - d1 / 150) \<and> ip_lineOpacity d2 < ip_lineOpacity d1"
  using assms
  by (simp add: connections_iff ip_connections_iff lineOpacity_decreasing ip_lineOpacity_decreasing)
     (simp add: lineOpacity_def ip_lineOpacity_def maxDistance_def connectionDistance_def)

theorem connection_rule_witness:
  "(0::nat) < 1 \<and> 1 < length samplePair \<and> 1 < length samplePoints \<and> (0::real) < 60 \<and>
   distance samplePair 0 1 = 60 \<and> ip_distance samplePoints 0 1 = 60 \<and>
   (\<exists>a. (0, 1, a) \<in> set (connections samplePair) \<and> a = 0.0375) \<and>
   lineOpacity 60 < lineOpacity 0 \<and>
   (\<exists>a. (0, 1, a) \<in> set (ip_connections samplePoints) \<and> a = 0.06) \<and>
   ip_lineOpacity 60 < ip_lineOpacity 0"
proof -
  have a: "(0::nat) < 1" and b: "1 < length samplePair" and c: "1 < length samplePoints"
    and d: "(0::real) < 60"
    by (simp_all add: samplePair_def samplePoints_def)
  have r: "((\<exists>a. (0, 1, a) \<in> set (connections samplePair)) \<longleftrightarrow> distance samplePair 0 1 < 80) \<and>
         (\<forall>a. (0, 1, a) \<in> set (connections samplePair) \<longrightarrow> a = (1 - distance samplePair 0 1 / 80) * 0.15) \<and>
         lineOpacity 0 = (1 - 0 / 80) * 0.15 \<and> lineOpacity 60 < lineOpacity 0 \<and>
         ((\<exists>a. (0, 1, a) \<in> set (ip_connections samplePoints)) \<longleftrightarrow> ip_distance samplePoints 0 1 < 150) \<and>
         (\<forall>a. (0, 1, a) \<in> set (ip_connections samplePoints) \<longrightarrow> a = 0.1 * (1 - ip_distance samplePoints 0 1 / 150)) \<and>
         ip_lineOpacity 0 = 0.1 * (1 - 0 / 150) \<and> ip_lineOpacity 60 < ip_lineOpacity 0"
    by (rule connection_rule [OF a b a c d])
  from r samplePair_distance have "\<exists>a. (0, 1, a) \<in> set (connections samplePair)"
    by simp
  then obtain a1 where a1: "(0, 1, a1) \<in> set (connections samplePair)" ..
  with r have "a1 = (1 - distance samplePair 0 1 / 80) * 0.15" by blast
  with samplePair_distance have v1: "a1 = 0.0375" by simp
  from r samplePoints_distance have "\<exists>a. (0, 1, a) \<in> set (ip_connections samplePoints)"
    by simp
  then obtain a2 where a2: "(0, 1, a2) \<in> set (ip_connections samplePoints)" ..
  with r have "a2 = 0.1 * (1 - ip_distance samplePoints 0 1 / 150)" by blast
  with samplePoints_distance have v2: "a2 = 0.06" by simp
  from r have o: "lineOpacity 60 < lineOpacity 0" "ip_lineOpacity 60 < ip_lineOpacity 0" by blast+
  from a b c d a1 v1 a2 v2 o samplePair_distance samplePoints_distance
  show ?thesis by blast
qed

text \<open>
  The claim as stated gives every line the opacity
  \<open>(1 - distance / threshold) * 0.15\<close>. In \<^verbatim>\<open>initializeParticles\<close> two
  particles at distance 60 get a line of opacity 0.06, not
  \<open>(1 - 60 / 150) * 0.15 = 0.09\<close>.
\<close>

theorem connection_opacity_counterexample:
  "ip_connections samplePoints = [(0, 1, 0.06)] \<and> ip_distance samplePoints 0 1 = 60 \<and>
   connectionDistance = 150 \<and> (0.06::real) \<noteq> (1 - 60 / 150) * 0.15"
proof -
  have "ip_connections samplePoints = [(0, 1, 0.06)]"
    by (simp add: ip_connections_def ip_connection_def hypot_def connectionDistance_def sqrt_3600
          upt_rec ip_lineOpacity_def samplePoints_def samplePoint_def)
  moreover have "(0.06::real) \<noteq> (1 - 60 / 150) * 0.15" by simp
  ultimately show ?thesis
    using samplePoints_distance by (simp add: connectionDistance_def)
qed

text \<open>
  Claim C8. On a surface of 800 by 600 with two particles at \<open>(10, 10)\<close> and
  \<open>(70, 10)\<close>, the connection pass of the class (threshold 80) draws exactly
  one line, from the first to the second, of opacity \<open>0.0375\<close>.
\<close>

theorem example_connection:
  "h_log (fst (drawConnections (h\<lparr>h_width := 800, h_height := 600\<rparr>,
      s\<lparr>particles := [p\<lparr>p_x := 10, p_y := 10\<rparr>, q\<lparr>p_x := 70, p_y := 10\<rparr>]\<rparr>))) =
     h_log h @ [Call DrawConnections, Line 10 10 70 10 0.0375] \<and>
   maxDistance = 80 \<and> 0.15 * (1 - 60 / 80) = (0.0375::real)"
  by (simp add: drawConnections_def emits_def connections_def connection_def distanceSquared_def
        maxDistance_def sqrt_3600 upt_rec lineOpacity_def strokeLine_def)

subsection \<open>The invariant of the page\<close>

lemma animate_consistent:
  assumes "h_pending h = []" and "h_listeners h \<longrightarrow> canvas s \<and> ctx s" and "length (particles s) \<le> 40"
  shows "consistent (animate (h, s))"
proof (cases "isVisible s \<and> ctx s \<and> canvas s")
  case True
  then have v: "isVisible s" "ctx s" "canvas s" by simp_all
  show ?thesis
    using assms animate_running [OF v, of h]
    by (cases "animate (h, s)") (simp add: consistent_def chain_def)
next
  case False
  then have "\<not> isVisible s \<or> \<not> ctx s \<or> \<not> canvas s" by blast
  from animate_suspended [OF this, of h] assms show ?thesis
    by (simp add: consistent_def chain_def)
qed

lemma destroy_consistent: "consistent w \<Longrightarrow> consistent (destroy w)"
  by (cases w) (auto simp: consistent_def destroy_def chain_def cancelAnimationFrame_def Let_def
        split: option.splits)

lemma resize_consistent: "consistent w \<Longrightarrow> consistent (resize w)"
  by (cases w) (auto simp: consistent_def resize_def)

lemma fire_consistent: "consistent w \<Longrightarrow> consistent (fire e w)"
proof (cases w)
  case (Pair h s)
  assume c: "consistent w"
  show ?thesis
  proof (cases e)
    case (ClockShows t)
    with c Pair show ?thesis by (simp add: consistent_def)
  next
    case AnimationFrame
    show ?thesis
    proof (cases "animationId s")
      case None
      with c Pair AnimationFrame show ?thesis by (simp add: consistent_def chain_def)
    next
      case (Some handle)
      with c Pair have p: "h_pending h = [handle]" by (simp add: consistent_def chain_def)
      have "consistent (animate (h\<lparr>h_pending := []\<rparr>, s))"
        using c Pair by (intro animate_consistent) (simp_all add: consistent_def)
      with p Pair AnimationFrame show ?thesis by simp
    qed
  next
    case (VisibilityChange hid)
    show ?thesis
    proof (cases "h_listeners h \<and> \<not> hid \<and> \<not> truthy (animationId s)")
      case True
      with c Pair have n: "animationId s = None"
        by (cases "animationId s") (simp_all add: consistent_def)
      have "consistent (animate (h\<lparr>h_hidden := hid\<rparr>, s\<lparr>isVisible := True\<rparr>))"
        using c Pair n by (intro animate_consistent) (simp_all add: consistent_def chain_def)
      with True Pair VisibilityChange show ?thesis by (simp add: onVisibilityChange_def Let_def)
    next
      case False
      with c Pair VisibilityChange show ?thesis
        by (auto simp: onVisibilityChange_def Let_def consistent_def)
    qed
  next
    case (WindowResize ow oh)
    have "consistent (h\<lparr>h_offsetWidth := ow, h_offsetHeight := oh\<rparr>, s)"
      using c Pair by (simp add: consistent_def)
    from this resize_consistent [OF this] Pair WindowResize show ?thesis by (simp add: Let_def)
  next
    case (MouseMove mx my)
    with c Pair show ?thesis by simp
  next
    case MouseLeave
    with c Pair show ?thesis by simp
  next
    case BeforeUnload
    with c Pair destroy_consistent [of w] show ?thesis by simp
  qed
qed

lemma run_snoc: "run (evs @ [e]) w = fire e (run evs w)"
  by (simp add: run_def)

lemma run_consistent: "consistent w \<Longrightarrow> consistent (run evs w)"
  by (induction evs rule: rev_induct) (simp_all add: run_def fire_consistent)

lemma initLoop_Suc:
  "initLoop (Suc n) (h, s) =
     initLoop n (snd (newParticle h), s\<lparr>particles := particles s @ [fst (newParticle h)]\<rparr>)"
  by (simp add: case_prod_unfold Let_def)

lemma initLoop_particles:
  "length (particles (snd (initLoop n (h, s)))) = length (particles s) + n"
  by (induction n arbitrary: h s) (simp_all add: initLoop_Suc del: initLoop.simps(2))

lemma initLoop_fields:
  "canvas (snd (initLoop n (h, s))) = canvas s"
  "ctx (snd (initLoop n (h, s))) = ctx s"
  "isVisible (snd (initLoop n (h, s))) = isVisible s"
  "animationId (snd (initLoop n (h, s))) = animationId s"
  by (induction n arbitrary: h s) (simp_all add: initLoop_Suc del: initLoop.simps(2))

lemma newParticle_host:
  "h_pending (snd (newParticle h)) = h_pending h"
  "h_listeners (snd (newParticle h)) = h_listeners h"
  "h_log (snd (newParticle h)) = h_log h"
  by (simp_all add: newParticle_def mathRandom_def Let_def)

lemma initLoop_host:
  "h_pending (fst (initLoop n (h, s))) = h_pending h"
  "h_listeners (fst (initLoop n (h, s))) = h_listeners h"
  "h_log (fst (initLoop n (h, s))) = h_log h"
  by (induction n arbitrary: h s) (simp_all add: initLoop_Suc newParticle_host del: initLoop.simps(2))

lemma snd_getParticleCount: "snd (getParticleCount h) = emit (Call GetParticleCount) h"
  by (simp add: getParticleCount_def)

lemma construct_started:
  "h_canvas h0 \<Longrightarrow> h_context2d h0 \<Longrightarrow> \<not> h_reducedMotion h0 \<Longrightarrow>
   construct h0 = setupEventListeners (animate (init (resize (built h0))))"
  by (simp add: construct_def built_def case_prod_unfold snd_getParticleCount Let_def checkWebGLSupport_def)

lemma construct_idle:
  "\<not> h_canvas h0 \<or> \<not> h_context2d h0 \<or> h_reducedMotion h0 \<Longrightarrow>
   h_listeners (fst (construct h0)) = h_listeners h0 \<and>
   h_pending (fst (construct h0)) = h_pending h0 \<and>
   animationId (snd (construct h0)) = None \<and>
   particles (snd (construct h0)) = [] \<and>
   (\<exists>e. h_log (fst (construct h0)) = h_log h0 @ [Call GetParticleCount, e] \<and> (e = Warn ''ParticleSystem: Canvas context not available'' \<or> e = Info ''ParticleSystem: Animations disabled due to reduced motion preference''))"
  by (auto simp: construct_def case_prod_unfold snd_getParticleCount Let_def)

lemma getParticleCount_le: "fst (getParticleCount h) \<le> 40"
  by (simp add: getParticleCount_def)

lemma built_fields:
  "particleCount (snd (built h)) \<le> 40" "particles (snd (built h)) = []"
  "canvas (snd (built h))" "ctx (snd (built h))" "isVisible (snd (built h))"
  "animationId (snd (built h)) = None"
  "h_pending (fst (built h)) = h_pending h" "h_listeners (fst (built h)) = h_listeners h"
  using getParticleCount_le [of h] by (simp_all add: built_def Let_def min_def)

lemma init_resize_fields:
  "length (particles (snd (init (resize (h, s))))) = length (particles s) + particleCount s"
  "canvas (snd (init (resize (h, s)))) = canvas s"
  "ctx (snd (init (resize (h, s)))) = ctx s"
  "isVisible (snd (init (resize (h, s)))) = isVisible s"
  "animationId (snd (init (resize (h, s)))) = animationId s"
  "h_pending (fst (init (resize (h, s)))) = h_pending h"
  "h_listeners (fst (init (resize (h, s)))) = h_listeners h"
  by (simp_all add: init_def resize_def initLoop_particles initLoop_fields initLoop_host)

lemma setupEventListeners_consistent:
  "consistent w \<Longrightarrow> canvas (snd w) \<Longrightarrow> ctx (snd w) \<Longrightarrow> consistent (setupEventListeners w)"
  by (cases w) (simp add: consistent_def setupEventListeners_def)

lemma newPage_simps [simp]:
  "h_pending (newPage h) = []" "h_listeners (newPage h) = False" "h_log (newPage h) = []"
  "h_canvas (newPage h) = h_canvas h" "h_context2d (newPage h) = h_context2d h"
  "h_reducedMotion (newPage h) = h_reducedMotion h"
  by (simp_all add: newPage_def)

lemma loadPage_consistent: "consistent (loadPage h)"
proof (cases "h_canvas h \<and> h_context2d h \<and> \<not> h_reducedMotion h")
  case False
  then have "\<not> h_canvas (newPage h) \<or> \<not> h_context2d (newPage h) \<or> h_reducedMotion (newPage h)"
    by simp
  from construct_idle [OF this] show ?thesis
    by (cases "construct (newPage h)") (simp add: loadPage_def consistent_def chain_def)
next
  case True
  then have eq: "loadPage h = setupEventListeners (animate (init (resize (built (newPage h)))))"
    by (simp add: loadPage_def construct_started)
  obtain h3 s3 where b: "built (newPage h) = (h3, s3)" by (cases "built (newPage h)")
  obtain h4 s4 where i: "init (resize (h3, s3)) = (h4, s4)" by (cases "init (resize (h3, s3))")
  have s3: "particleCount s3 \<le> 40" "particles s3 = []" "canvas s3" "ctx s3" "h_pending h3 = []"
    using built_fields [of "newPage h"] by (simp_all add: b)
  have s4: "length (particles s4) \<le> 40" "canvas s4" "ctx s4" "h_pending h4 = []"
    using init_resize_fields [of h3 s3] s3 by (simp_all add: i)
  have "consistent (animate (h4, s4))"
    using s4 by (intro animate_consistent) simp_all
  then show ?thesis
    unfolding eq b i using s4 by (intro setupEventListeners_consistent) (simp_all add: animate_refs)
qed

lemma reachable_consistent: "consistent (run evs (loadPage h))"
  by (rule run_consistent) (rule loadPage_consistent)

subsection \<open>Teardown, idleness and the visibility cycle\<close>

lemma destroy_twice: "destroy (destroy w) = (emit (Call Destroy) (fst (destroy w)), snd (destroy w))"
  by (cases w) (simp add: destroy_def Let_def)

lemma destroy_clears:
  "consistent w \<Longrightarrow> animationId (snd (destroy w)) = None \<and> h_pending (fst (destroy w)) = []"
  by (cases w) (auto simp: consistent_def destroy_def Let_def chain_def cancelAnimationFrame_def
        split: option.splits)

lemma frameRequests_emit [simp]:
  "frameRequests (emit e h) = frameRequests h + (if isRequest e then 1 else 0)"
  by (simp add: frameRequests_def)

lemma calls_emit [simp]: "calls m (emit e h) = calls m h + (if e = Call m then 1 else 0)"
  by (simp add: calls_def)

lemma counters_fields [simp]:
  "frameRequests (h\<lparr>h_clock := t\<rparr>) = frameRequests h"
  "frameRequests (h\<lparr>h_pending := ps\<rparr>) = frameRequests h"
  "frameRequests (h\<lparr>h_hidden := b\<rparr>) = frameRequests h"
  "frameRequests (h\<lparr>h_offsetWidth := ow\<rparr>) = frameRequests h"
  "frameRequests (h\<lparr>h_offsetHeight := oh\<rparr>) = frameRequests h"
  "calls m (h\<lparr>h_clock := t\<rparr>) = calls m h"
  "calls m (h\<lparr>h_pending := ps\<rparr>) = calls m h"
  "calls m (h\<lparr>h_hidden := b\<rparr>) = calls m h"
  "calls m (h\<lparr>h_offsetWidth := ow\<rparr>) = calls m h"
  "calls m (h\<lparr>h_offsetHeight := oh\<rparr>) = calls m h"
  by (simp_all add: frameRequests_def calls_def)

lemma destroy_idle: "idle w \<Longrightarrow> idle (destroy w)"
  by (cases w) (auto simp: idle_def destroy_def Let_def)

lemma fire_idle: "idle w \<Longrightarrow> idle (fire e w)"
  by (cases w; cases e) (auto simp: idle_def destroy_def Let_def)

lemma run_idle: "idle w \<Longrightarrow> idle (run evs w)"
  by (induction evs rule: rev_induct) (simp_all add: run_def fire_idle)

lemma loadPage_idle:
  assumes "\<not> h_canvas h \<or> \<not> h_context2d h \<or> h_reducedMotion h"
  shows "idle (loadPage h)"
proof -
  from assms have "\<not> h_canvas (newPage h) \<or> \<not> h_context2d (newPage h) \<or> h_reducedMotion (newPage h)"
    by simp
  from construct_idle [OF this] show ?thesis
    by (cases "construct (newPage h)") (auto simp: loadPage_def idle_def frameRequests_def calls_def)
qed


lemma no_request_in_drawing:
  "filter isRequest (map drawParticle ps) = []"
  "filter isRequest (map (strokeLine ps) cs) = []"
  by (auto simp: filter_empty_conv drawParticle_def strokeLine_def split: prod.splits)

lemma animate_frameRequests:
  "frameRequests (fst (animate (h, s))) =
     frameRequests h + (if isVisible s \<and> ctx s \<and> canvas s then 1 else 0)"
proof (cases "isVisible s \<and> ctx s \<and> canvas s")
  case True
  then have v: "isVisible s" "ctx s" "canvas s" by simp_all
  show ?thesis
    unfolding frameRequests_def animate_running(2) [OF v]
    using True by (simp add: no_request_in_drawing)
next
  case False
  then have "\<not> isVisible s \<or> \<not> ctx s \<or> \<not> canvas s" by blast
  from animate_suspended [OF this, of h] False show ?thesis by simp
qed


lemma hide_frame_show:
  assumes c: "consistent (h, s)" and l: "h_listeners h"
  shows "animationId (snd (fire AnimationFrame (fire (VisibilityChange True) (h, s)))) = None"
    and "h_pending (fst (fire AnimationFrame (fire (VisibilityChange True) (h, s)))) = []"
    and "frameRequests (fst (fire AnimationFrame (fire (VisibilityChange True) (h, s)))) = frameRequests h"
    and "h_pending (fst (fire (VisibilityChange False)
           (fire AnimationFrame (fire (VisibilityChange True) (h, s))))) = [Suc (h_lastHandle h)]"
    and "animationId (snd (fire (VisibilityChange False)
           (fire AnimationFrame (fire (VisibilityChange True) (h, s))))) = Some (Suc (h_lastHandle h))"
    and "frameRequests (fst (fire (VisibilityChange False)
           (fire AnimationFrame (fire (VisibilityChange True) (h, s))))) = frameRequests h + 1"
proof -
  let ?h1 = "h\<lparr>h_hidden := True\<rparr>" and ?s1 = "s\<lparr>isVisible := False\<rparr>"
  from c l have r: "canvas s" "ctx s" by (simp_all add: consistent_def)
  have hide: "fire (VisibilityChange True) (h, s) = (?h1, ?s1)"
    using l by (simp add: onVisibilityChange_def Let_def)
  define h2 where "h2 = (case animationId s of None \<Rightarrow> ?h1\<lparr>h_pending := []\<rparr>
     | Some handle \<Rightarrow> emit (Call Animate) (?h1\<lparr>h_pending := []\<rparr>))"
  have frame: "fire AnimationFrame (?h1, ?s1) = (h2, ?s1\<lparr>animationId := None\<rparr>)"
    using c by (cases "animationId s") (simp_all add: consistent_def chain_def h2_def animate_suspended)
  have h2: "h_pending h2 = []" "h_listeners h2" "h_lastHandle h2 = h_lastHandle h"
    "frameRequests h2 = frameRequests h"
    using l by (simp_all add: h2_def split: option.splits)
  let ?s3 = "?s1\<lparr>animationId := None, isVisible := True\<rparr>"
  have v: "isVisible ?s3" "ctx ?s3" "canvas ?s3" using r by simp_all
  let ?h3 = "h2\<lparr>h_hidden := False\<rparr>"
  have show_again: "fire (VisibilityChange False) (h2, ?s1\<lparr>animationId := None\<rparr>) = animate (?h3, ?s3)"
    using h2 by (simp add: onVisibilityChange_def Let_def)
  have h3: "h_pending ?h3 = []" "h_lastHandle ?h3 = h_lastHandle h" "frameRequests ?h3 = frameRequests h"
    using h2 by simp_all
  show "animationId (snd (fire AnimationFrame (fire (VisibilityChange True) (h, s)))) = None"
    and "h_pending (fst (fire AnimationFrame (fire (VisibilityChange True) (h, s)))) = []"
    and "frameRequests (fst (fire AnimationFrame (fire (VisibilityChange True) (h, s)))) = frameRequests h"
    unfolding hide frame using h2 by simp_all
  show "h_pending (fst (fire (VisibilityChange False)
           (fire AnimationFrame (fire (VisibilityChange True) (h, s))))) = [Suc (h_lastHandle h)]"
    unfolding hide frame show_again using animate_running(3) [OF v, of ?h3] h3 by simp
  show "animationId (snd (fire (VisibilityChange False)
           (fire AnimationFrame (fire (VisibilityChange True) (h, s))))) = Some (Suc (h_lastHandle h))"
    unfolding hide frame show_again using animate_running(1) [OF v, of ?h3] h3 by simp
  show "frameRequests (fst (fire (VisibilityChange False)
           (fire AnimationFrame (fire (VisibilityChange True) (h, s))))) = frameRequests h + 1"
    unfolding hide frame show_again using animate_frameRequests [of ?h3 ?s3] h3 r by simp
qed

lemma regained_one_chain:
  assumes c: "consistent (h, s)" and l: "h_listeners h"
  shows "length (h_pending (fst (fire (VisibilityChange False) (h, s)))) = 1"
proof (cases "animationId s")
  case None
  let ?s1 = "s\<lparr>isVisible := True\<rparr>"
  from c l have v: "isVisible ?s1" "ctx ?s1" "canvas ?s1" by (simp_all add: consistent_def)
  from c None have "h_pending h = []" by (simp add: consistent_def chain_def)
  with animate_running(3) [OF v, of "h\<lparr>h_hidden := False\<rparr>"] None l
  show ?thesis by (simp add: onVisibilityChange_def Let_def)
next
  case (Some handle)
  with c have "handle \<noteq> 0" "h_pending h = [handle]" by (auto simp: consistent_def chain_def)
  with Some l show ?thesis by (simp add: onVisibilityChange_def Let_def)
qed

lemma consistent_pending: "consistent w \<Longrightarrow> length (h_pending (fst w)) \<le> 1"
  by (cases w) (simp add: consistent_def chain_def split: option.splits)



subsection \<open>The invariant of the page with the enhanced class\<close>

lemma e_frameBody_length [simp]: "length (e_frameBody h s) = length (particles s)"
  by (simp add: e_frameBody_def)

lemma e_animate_suspended:
  "\<not> isVisible s \<or> \<not> ctx s \<or> \<not> canvas s \<Longrightarrow>
   e_animate (h, s) = (emit (Call Animate) h, s\<lparr>animationId := None\<rparr>)"
  by (simp add: e_animate_def Let_def)

lemma e_animate_running:
  assumes "isVisible s" and "ctx s" and "canvas s"
  shows "snd (e_animate (h, s)) =
           s\<lparr>lastFrame := h_clock h, particles := e_frameBody h s,
             frameCount := frameCount s + 1, animationId := Some (Suc (h_lastHandle h))\<rparr>"
    and "h_log (fst (e_animate (h, s))) =
           h_log h @ [Call Animate, FillRect (h_width h) (h_height h)] @
           map (e_drawParticle (h_clock h)) (e_frameBody h s) @
           (if frameCount s mod 2 = 0
            then Call DrawConnections # map (strokeLine (e_frameBody h s)) (connections (e_frameBody h s))
            else []) @
           [RequestFrame (Suc (h_lastHandle h))]"
    and "h_pending (fst (e_animate (h, s))) = h_pending h @ [Suc (h_lastHandle h)]"
    and "h_listeners (fst (e_animate (h, s))) = h_listeners h"
    and "h_lastHandle (fst (e_animate (h, s))) = Suc (h_lastHandle h)"
  using assms
  by (simp_all add: e_animate_def Let_def drawConnections_def requestAnimationFrame_def e_frameBody_def
        split: prod.splits)

lemma e_animate_refs:
  "canvas (snd (e_animate (h, s))) = canvas s" "ctx (snd (e_animate (h, s))) = ctx s"
  by (simp_all add: e_animate_def Let_def drawConnections_def requestAnimationFrame_def
        split: prod.splits if_splits)

lemma e_animate_consistent:
  assumes "h_pending h = []" and "h_listeners h \<longrightarrow> canvas s \<and> ctx s" and "length (particles s) \<le> 40"
  shows "consistent (e_animate (h, s))"
proof (cases "isVisible s \<and> ctx s \<and> canvas s")
  case True
  then have v: "isVisible s" "ctx s" "canvas s" by simp_all
  show ?thesis
    using assms e_animate_running [OF v, of h]
    by (cases "e_animate (h, s)") (simp add: consistent_def chain_def)
next
  case False
  then have "\<not> isVisible s \<or> \<not> ctx s \<or> \<not> canvas s" by blast
  from e_animate_suspended [OF this, of h] assms show ?thesis
    by (simp add: consistent_def chain_def)
qed

lemma e_fire_consistent: "consistent w \<Longrightarrow> consistent (e_fire e w)"
proof (cases w)
  case (Pair h s)
  assume c: "consistent w"
  show ?thesis
  proof (cases e)
    case (ClockShows t)
    with c Pair show ?thesis by (simp add: consistent_def)
  next
    case AnimationFrame
    show ?thesis
    proof (cases "animationId s")
      case None
      with c Pair AnimationFrame show ?thesis by (simp add: consistent_def chain_def)
    next
      case (Some handle)
      with c Pair have p: "h_pending h = [handle]" by (simp add: consistent_def chain_def)
      have "consistent (e_animate (h\<lparr>h_pending := []\<rparr>, s))"
        using c Pair by (intro e_animate_consistent) (simp_all add: consistent_def)
      with p Pair AnimationFrame show ?thesis by simp
    qed
  next
    case (VisibilityChange hid)
    show ?thesis
    proof (cases "h_listeners h \<and> \<not> hid \<and> \<not> truthy (animationId s)")
      case True
      with c Pair have n: "animationId s = None"
        by (cases "animationId s") (simp_all add: consistent_def)
      have "consistent (e_animate (h\<lparr>h_hidden := hid\<rparr>, s\<lparr>isVisible := True\<rparr>))"
        using c Pair n by (intro e_animate_consistent) (simp_all add: consistent_def chain_def)
      with True Pair VisibilityChange show ?thesis by (simp add: e_onVisibilityChange_def Let_def)
    next
      case False
      with c Pair VisibilityChange show ?thesis
        by (auto simp: e_onVisibilityChange_def Let_def consistent_def)
    qed
  next
    case (WindowResize ow oh)
    have "consistent (h\<lparr>h_offsetWidth := ow, h_offsetHeight := oh\<rparr>, s)"
      using c Pair by (simp add: consistent_def)
    from this resize_consistent [OF this] Pair WindowResize show ?thesis by (simp add: Let_def)
  next
    case (MouseMove mx my)
    with c Pair show ?thesis by (simp add: consistent_def)
  next
    case MouseLeave
    with c Pair show ?thesis by (simp add: consistent_def)
  next
    case BeforeUnload
    with c Pair destroy_consistent [of w] show ?thesis by simp
  qed
qed

lemma e_run_consistent: "consistent w \<Longrightarrow> consistent (e_run evs w)"
  by (induction evs rule: rev_induct) (simp_all add: e_run_def e_fire_consistent)

lemma e_initLoop_Suc:
  "e_initLoop (Suc n) (h, s) =
     e_initLoop n (snd (e_newParticle h), s\<lparr>particles := particles s @ [fst (e_newParticle h)]\<rparr>)"
  by (simp add: case_prod_unfold Let_def)

lemma e_initLoop_particles:
  "length (particles (snd (e_initLoop n (h, s)))) = length (particles s) + n"
  by (induction n arbitrary: h s) (simp_all add: e_initLoop_Suc del: e_initLoop.simps(2))

lemma e_initLoop_fields:
  "canvas (snd (e_initLoop n (h, s))) = canvas s"
  "ctx (snd (e_initLoop n (h, s))) = ctx s"
  "isVisible (snd (e_initLoop n (h, s))) = isVisible s"
  "animationId (snd (e_initLoop n (h, s))) = animationId s"
  by (induction n arbitrary: h s) (simp_all add: e_initLoop_Suc del: e_initLoop.simps(2))

lemma e_newParticle_host:
  "h_pending (snd (e_newParticle h)) = h_pending h"
  "h_listeners (snd (e_newParticle h)) = h_listeners h"
  "h_log (snd (e_newParticle h)) = h_log h"
  by (simp_all add: e_newParticle_def mathRandom_def Let_def)

lemma e_initLoop_host:
  "h_pending (fst (e_initLoop n (h, s))) = h_pending h"
  "h_listeners (fst (e_initLoop n (h, s))) = h_listeners h"
  "h_log (fst (e_initLoop n (h, s))) = h_log h"
  by (induction n arbitrary: h s) (simp_all add: e_initLoop_Suc e_newParticle_host del: e_initLoop.simps(2))

lemma e_construct_started:
  "h_canvas h0 \<Longrightarrow> h_context2d h0 \<Longrightarrow> \<not> h_reducedMotion h0 \<Longrightarrow>
   e_construct h0 = e_setupEventListeners (e_animate (e_init (resize (e_built h0))))"
  by (simp add: e_construct_def e_built_def case_prod_unfold snd_getParticleCount Let_def checkWebGLSupport_def)

lemma e_construct_idle:
  "\<not> h_canvas h0 \<or> \<not> h_context2d h0 \<or> h_reducedMotion h0 \<Longrightarrow>
   h_listeners (fst (e_construct h0)) = h_listeners h0 \<and>
   h_pending (fst (e_construct h0)) = h_pending h0 \<and>
   animationId (snd (e_construct h0)) = None \<and>
   particles (snd (e_construct h0)) = [] \<and>
   (\<exists>e. h_log (fst (e_construct h0)) = h_log h0 @ [Call GetParticleCount, e] \<and> (e = Warn ''ParticleSystem: Canvas context not available'' \<or> e = Info ''ParticleSystem: Animations disabled due to reduced motion preference''))"
  by (auto simp: e_construct_def case_prod_unfold snd_getParticleCount Let_def)

lemma e_built_fields:
  "particleCount (snd (e_built h)) \<le> 40" "particles (snd (e_built h)) = []"
  "canvas (snd (e_built h))" "ctx (snd (e_built h))" "isVisible (snd (e_built h))"
  "animationId (snd (e_built h)) = None"
  "h_pending (fst (e_built h)) = h_pending h" "h_listeners (fst (e_built h)) = h_listeners h"
  using getParticleCount_le [of h] by (simp_all add: e_built_def Let_def min_def)

lemma e_init_resize_fields:
  "length (particles (snd (e_init (resize (h, s))))) = length (particles s) + particleCount s"
  "canvas (snd (e_init (resize (h, s)))) = canvas s"
  "ctx (snd (e_init (resize (h, s)))) = ctx s"
  "isVisible (snd (e_init (resize (h, s)))) = isVisible s"
  "animationId (snd (e_init (resize (h, s)))) = animationId s"
  "h_pending (fst (e_init (resize (h, s)))) = h_pending h"
  "h_listeners (fst (e_init (resize (h, s)))) = h_listeners h"
  by (simp_all add: e_init_def resize_def e_initLoop_particles e_initLoop_fields e_initLoop_host)

lemma e_setupEventListeners_consistent:
  "consistent w \<Longrightarrow> canvas (snd w) \<Longrightarrow> ctx (snd w) \<Longrightarrow> consistent (e_setupEventListeners w)"
  by (cases w) (simp add: consistent_def e_setupEventListeners_def)

lemma e_loadPage_consistent: "consistent (e_loadPage h)"
proof (cases "h_canvas h \<and> h_context2d h \<and> \<not> h_reducedMotion h")
  case False
  then have "\<not> h_canvas (newPage h) \<or> \<not> h_context2d (newPage h) \<or> h_reducedMotion (newPage h)"
    by simp
  from e_construct_idle [OF this] show ?thesis
    by (cases "e_construct (newPage h)") (simp add: e_loadPage_def consistent_def chain_def)
next
  case True
  then have eq: "e_loadPage h = e_setupEventListeners (e_animate (e_init (resize (e_built (newPage h)))))"
    by (simp add: e_loadPage_def e_construct_started)
  obtain h3 s3 where b: "e_built (newPage h) = (h3, s3)" by (cases "e_built (newPage h)")
  obtain h4 s4 where i: "e_init (resize (h3, s3)) = (h4, s4)" by (cases "e_init (resize (h3, s3))")
  have s3: "particleCount s3 \<le> 40" "particles s3 = []" "canvas s3" "ctx s3" "h_pending h3 = []"
    using e_built_fields [of "newPage h"] by (simp_all add: b)
  have s4: "length (particles s4) \<le> 40" "canvas s4" "ctx s4" "h_pending h4 = []"
    using e_init_resize_fields [of h3 s3] s3 by (simp_all add: i)
  have "consistent (e_animate (h4, s4))"
    using s4 by (intro e_animate_consistent) simp_all
  then show ?thesis
    unfolding eq b i using s4 by (intro e_setupEventListeners_consistent) (simp_all add: e_animate_refs)
qed

lemma e_reachable_consistent: "consistent (e_run evs (e_loadPage h))"
  by (rule e_run_consistent) (rule e_loadPage_consistent)

lemma e_fire_idle: "idle w \<Longrightarrow> idle (e_fire e w)"
  by (cases w; cases e) (auto simp: idle_def destroy_def Let_def)

lemma e_run_idle: "idle w \<Longrightarrow> idle (e_run evs w)"
  by (induction evs rule: rev_induct) (simp_all add: e_run_def e_fire_idle)

lemma e_loadPage_idle:
  assumes "\<not> h_canvas h \<or> \<not> h_context2d h \<or> h_reducedMotion h"
  shows "idle (e_loadPage h)"
proof -
  from assms have "\<not> h_canvas (newPage h) \<or> \<not> h_context2d (newPage h) \<or> h_reducedMotion (newPage h)"
    by simp
  from e_construct_idle [OF this] show ?thesis
    by (cases "e_construct (newPage h)") (auto simp: e_loadPage_def idle_def frameRequests_def calls_def)
qed

subsection \<open>The number of particles and the reduced-motion preference\<close>

lemma updateAndDraw_length: "length (fst (updateAndDraw ps h)) = length ps"
  by (induction ps arbitrary: h) (simp_all add: Let_def case_prod_unfold)

lemma updateAndDraw_ok:
  "\<forall>p \<in> set ps. 0 \<le> P_radius p \<Longrightarrow>
   updateAndDraw ps h =
     (map (Particle_update (h_width h) (h_height h)) ps,
      emits (map (\<lambda>p. Particle_draw (Particle_update (h_width h) (h_height h) p)) ps) h, True)"
proof (induction ps arbitrary: h)
  case Nil
  show ?case by (simp add: emits_def)
next
  case (Cons p ps)
  then show ?case
    by (simp add: Let_def Particle_update_radius Particle_draw_def emit_def emits_def)
qed

lemma ip_animate_length: "length (snd (ip_animate (h, ps))) = length ps"
  using updateAndDraw_length [of ps "emit (ClearRect (h_width h) (h_height h)) h"]
  by (simp add: ip_animate_def Let_def case_prod_unfold)

lemma ip_animate_running:
  assumes "h_context2d h" and "\<forall>p \<in> set ps. 0 \<le> P_radius p"
  shows "snd (ip_animate (h, ps)) = map (Particle_update (h_width h) (h_height h)) ps"
    and "h_log (fst (ip_animate (h, ps))) =
           h_log h @ [ClearRect (h_width h) (h_height h)] @
           map Particle_draw (map (Particle_update (h_width h) (h_height h)) ps) @
           map (ip_strokeLine (map (Particle_update (h_width h) (h_height h)) ps))
               (ip_connections (map (Particle_update (h_width h) (h_height h)) ps)) @
           [RequestFrame (Suc (h_lastHandle h))]"
    and "h_pending (fst (ip_animate (h, ps))) = h_pending h @ [Suc (h_lastHandle h)]"
  using assms
  by (simp_all add: ip_animate_def Let_def updateAndDraw_ok requestAnimationFrame_def comp_def)

lemma createParticles_length: "length (snd (createParticles n (h, ps))) = length ps + n"
  by (induction n arbitrary: h ps) (simp_all add: Let_def case_prod_unfold)

lemma ip_animate_length_pair: "length (snd (ip_animate w)) = length (snd w)"
  by (cases w) (simp add: ip_animate_length)

lemma initializeParticles_length:
  "length (snd (initializeParticles h)) = (if h_canvas h then 50 else 0)"
  by (simp add: initializeParticles_def Let_def case_prod_unfold ip_animate_length_pair
      createParticles_length ip_particleCount_def)

lemma foldl_ip_animate_length:
  "length (snd (foldl (\<lambda>w handle. ip_animate w) w hs)) = length (snd w)"
  by (induction hs arbitrary: w) (simp_all add: ip_animate_length_pair)

lemma ip_frame_length: "length (snd (ip_frame w)) = length (snd w)"
  by (cases w) (simp add: ip_frame_def foldl_ip_animate_length)

lemma ip_frames_length: "length (snd ((ip_frame ^^ n) w)) = length (snd w)"
  by (induction n) (simp_all add: ip_frame_length)

text \<open>
  Claim C4, as the code has it. Whatever the browser does after the page has
  loaded, the class \<^verbatim>\<open>ParticleSystem\<close> of either script holds at most 40
  particles; the loop of \<^verbatim>\<open>initializeParticles\<close> holds exactly 50 at every
  frame (none without a canvas element).
\<close>

theorem particle_count_bounds:
  "length (particles (snd (run evs (loadPage h)))) \<le> 40 \<and>
   length (particles (snd (e_run evs (e_loadPage h)))) \<le> 40 \<and>
   length (snd ((ip_frame ^^ n) (initializeParticles h))) = (if h_canvas h then 50 else 0)"
proof -
  have "consistent (run evs (loadPage h))" by (rule reachable_consistent)
  then have a: "length (particles (snd (run evs (loadPage h)))) \<le> 40"
    by (cases "run evs (loadPage h)") (simp add: consistent_def)
  have "consistent (e_run evs (e_loadPage h))" by (rule e_reachable_consistent)
  then have b: "length (particles (snd (e_run evs (e_loadPage h)))) \<le> 40"
    by (cases "e_run evs (e_loadPage h)") (simp add: consistent_def)
  from a b show ?thesis by (simp add: ip_frames_length initializeParticles_length)
qed

text \<open>
  The claim as stated, at most 40 in any loop of the repository, fails on
  \<^verbatim>\<open>initializeParticles\<close>, whose \<^verbatim>\<open>particleCount\<close> is the constant 50.
\<close>

theorem fifty_particles_counterexample:
  "h_canvas desktop \<and> length (snd (initializeParticles desktop)) = 50 \<and> \<not> (50::nat) \<le> 40"
  by (simp add: initializeParticles_length) (simp add: desktop_def)

text \<open>
  Claim C5, as the code has it. When the host reports the reduced-motion
  preference at construction time, then whatever the browser does afterwards
  no animation frame is ever requested or pending, \<^verbatim>\<open>init\<close> is never invoked
  and the particle array stays empty; \<^verbatim>\<open>getParticleCount\<close> has been invoked
  exactly once (by the first lines of the constructor). Both scripts.
\<close>

theorem reduced_motion_idle:
  assumes "h_reducedMotion h"
  shows "frameRequests (fst (run evs (loadPage h))) = 0 \<and>
         h_pending (fst (run evs (loadPage h))) = [] \<and>
         calls Init (fst (run evs (loadPage h))) = 0 \<and>
         particles (snd (run evs (loadPage h))) = [] \<and>
         calls GetParticleCount (fst (run evs (loadPage h))) = 1 \<and>
         frameRequests (fst (e_run evs (e_loadPage h))) = 0 \<and>
         h_pending (fst (e_run evs (e_loadPage h))) = [] \<and>
         calls Init (fst (e_run evs (e_loadPage h))) = 0 \<and>
         particles (snd (e_run evs (e_loadPage h))) = [] \<and>
         calls GetParticleCount (fst (e_run evs (e_loadPage h))) = 1"
proof -
  from assms have "idle (run evs (loadPage h))" by (intro run_idle loadPage_idle) simp
  moreover from assms have "idle (e_run evs (e_loadPage h))" by (intro e_run_idle e_loadPage_idle) simp
  ultimately show ?thesis
    by (cases "run evs (loadPage h)"; cases "e_run evs (e_loadPage h)") (simp add: idle_def)
qed

theorem reduced_motion_idle_witness:
  "h_reducedMotion calmDesktop \<and>
   frameRequests (fst (run [VisibilityChange True, VisibilityChange False, AnimationFrame, BeforeUnload]
     (loadPage calmDesktop))) = 0 \<and>
   calls Init (fst (run [VisibilityChange True, VisibilityChange False, AnimationFrame, BeforeUnload]
     (loadPage calmDesktop))) = 0 \<and>
   frameRequests (fst (e_run [VisibilityChange True, VisibilityChange False, AnimationFrame, BeforeUnload]
     (e_loadPage calmDesktop))) = 0"
proof -
  have r: "h_reducedMotion calmDesktop" by (simp add: calmDesktop_def desktop_def)
  from reduced_motion_idle [OF r, of "[VisibilityChange True, VisibilityChange False, AnimationFrame, BeforeUnload]"] r
  show ?thesis by blast
qed

text \<open>
  The claim as stated says that the particle count computation is not
  invoked. Both constructors invoke it before they test the preference: on
  the reduced-motion desktop the log starts with the call and the field
  \<^verbatim>\<open>particleCount\<close> holds its result.
\<close>

theorem count_computed_counterexample:
  "h_reducedMotion calmDesktop \<and>
   h_log (fst (loadPage calmDesktop)) =
     [Call GetParticleCount, Info ''ParticleSystem: Animations disabled due to reduced motion preference''] \<and>
   particleCount (snd (loadPage calmDesktop)) = 40 \<and>
   h_log (fst (e_loadPage calmDesktop)) =
     [Call GetParticleCount, Info ''ParticleSystem: Animations disabled due to reduced motion preference''] \<and>
   particleCount (snd (e_loadPage calmDesktop)) = 40"
  by (simp add: loadPage_def e_loadPage_def construct_def e_construct_def getParticleCount_def
        newPage_def calmDesktop_def desktop_def emit_def)

subsection \<open>Claims on teardown, visibility and the frames\<close>

text \<open>
  Claim C9. In every state the page can reach, with the class of either
  script: after one call of \<^verbatim>\<open>destroy\<close> the handle is \<^verbatim>\<open>null\<close> and no frame
  is pending; a second call leaves the system and the host as the first left
  them, but for the record of its own invocation in the log (so it cancels
  nothing and the handle stays \<^verbatim>\<open>null\<close>).
\<close>

theorem destroy_idempotent:
  "animationId (snd (destroy (run evs (loadPage h)))) = None \<and>
   h_pending (fst (destroy (run evs (loadPage h)))) = [] \<and>
   destroy (destroy (run evs (loadPage h))) =
     (emit (Call Destroy) (fst (destroy (run evs (loadPage h)))), snd (destroy (run evs (loadPage h)))) \<and>
   animationId (snd (destroy (e_run evs (e_loadPage h)))) = None \<and>
   h_pending (fst (destroy (e_run evs (e_loadPage h)))) = [] \<and>
   destroy (destroy (e_run evs (e_loadPage h))) =
     (emit (Call Destroy) (fst (destroy (e_run evs (e_loadPage h)))), snd (destroy (e_run evs (e_loadPage h))))"
  using destroy_clears [OF reachable_consistent, of evs h]
    destroy_clears [OF e_reachable_consistent, of evs h]
  by (simp add: destroy_twice)

lemma loadPage_listeners:
  "h_canvas h \<Longrightarrow> h_context2d h \<Longrightarrow> \<not> h_reducedMotion h \<Longrightarrow> h_listeners (fst (loadPage h))"
  by (simp add: loadPage_def construct_started setupEventListeners_def case_prod_unfold)

text \<open>
  Claim C7. In every state \<open>w\<close> the page of \<^verbatim>\<open>script.js\<close> can reach, at most
  one frame callback is pending: no two loops run. If the listeners are
  registered and the page is hidden, the next frame stops the loop (handle
  \<^verbatim>\<open>null\<close>, nothing pending, no new request); when the page is shown again
  exactly one frame is requested and exactly one callback is pending. Also
  without the frame in between, exactly one callback is pending after the
  page is shown.
\<close>

theorem single_animation_chain:
  assumes "w = run evs (loadPage h)"
  shows "length (h_pending (fst w)) \<le> 1 \<and>
         (h_listeners (fst w) \<longrightarrow>
            animationId (snd (fire AnimationFrame (fire (VisibilityChange True) w))) = None \<and>
            h_pending (fst (fire AnimationFrame (fire (VisibilityChange True) w))) = [] \<and>
            frameRequests (fst (fire AnimationFrame (fire (VisibilityChange True) w))) =
              frameRequests (fst w) \<and>
            frameRequests (fst (fire (VisibilityChange False)
              (fire AnimationFrame (fire (VisibilityChange True) w)))) = frameRequests (fst w) + 1 \<and>
            length (h_pending (fst (fire (VisibilityChange False)
              (fire AnimationFrame (fire (VisibilityChange True) w))))) = 1 \<and>
            length (h_pending (fst (fire (VisibilityChange False) w))) = 1)"
proof -
  obtain h' s' where w: "w = (h', s')" by (cases w)
  have c: "consistent (h', s')" using assms w reachable_consistent [of evs h] by simp
  from consistent_pending [OF c] have "length (h_pending (fst w)) \<le> 1" by (simp add: w)
  moreover {
    assume l: "h_listeners h'"
    note hide_frame_show [OF c l] regained_one_chain [OF c l]
  }
  ultimately show ?thesis by (simp add: w)
qed

theorem single_animation_chain_witness:
  "h_listeners (fst (run [] (loadPage desktop))) \<and>
   length (h_pending (fst (run [] (loadPage desktop)))) \<le> 1 \<and>
   frameRequests (fst (fire (VisibilityChange False)
     (fire AnimationFrame (fire (VisibilityChange True) (run [] (loadPage desktop)))))) =
     frameRequests (fst (run [] (loadPage desktop))) + 1 \<and>
   length (h_pending (fst (fire (VisibilityChange False)
     (fire AnimationFrame (fire (VisibilityChange True) (run [] (loadPage desktop))))))) = 1"
proof -
  have "h_listeners (fst (loadPage desktop))"
    by (rule loadPage_listeners) (simp_all add: desktop_def)
  then have l: "h_listeners (fst (run [] (loadPage desktop)))" by (simp add: run_def)
  from single_animation_chain [OF refl, of "[]" desktop] l show ?thesis by blast
qed















subsection \<open>The initialisers create particles of the ranges assumed\<close>

lemma unit_scale: "0 \<le> r \<Longrightarrow> r \<le> 1 \<Longrightarrow> 0 \<le> r * real w \<and> r * real w \<le> real w"
proof -
  assume a: "0 \<le> r" "r \<le> 1"
  from a(2) have "r * real w \<le> 1 * real w" by (rule mult_right_mono) simp
  with a(1) show ?thesis by simp
qed

lemma velocity_range: "0 \<le> r \<Longrightarrow> r < 1 \<Longrightarrow> \<bar>(r - 0.5) * 0.5\<bar> \<le> (0.25::real)"
proof -
  assume "0 \<le> r" and "r < 1"
  then have "\<bar>r - 1 / 2\<bar> \<le> 1 / 2" by linarith
  then show ?thesis by (simp add: abs_mult)
qed

lemma newParticle_initialised:
  assumes "unitRandom h"
  shows "inCanvas (h_width h) (h_height h) (p_x (fst (newParticle h))) (p_y (fst (newParticle h)))"
    and "initialVelocity (p_vx (fst (newParticle h))) (p_vy (fst (newParticle h)))"
    and "1 \<le> p_radius (fst (newParticle h))" and "p_radius (fst (newParticle h)) < 3"
    and "0.2 \<le> p_opacity (fst (newParticle h))" and "p_opacity (fst (newParticle h)) < 0.8"
proof -
  have r: "\<And>n. 0 \<le> h_random h n" "\<And>n. h_random h n < 1" "\<And>n. h_random h n \<le> 1"
    using assms by (auto simp: unitRandom_def intro: less_imp_le)
  have m: "\<And>n (w::nat). h_random h n * real w \<le> real w"
    using unit_scale r(1,3) by blast
  show "inCanvas (h_width h) (h_height h) (p_x (fst (newParticle h))) (p_y (fst (newParticle h)))"
    using r m by (simp add: newParticle_def mathRandom_def Let_def inCanvas_def)
  have v: "\<And>n. \<bar>(h_random h n - 0.5) * 0.5\<bar> \<le> 0.25"
    using r(1,2) by (rule velocity_range)
  show "initialVelocity (p_vx (fst (newParticle h))) (p_vy (fst (newParticle h)))"
    using v by (simp add: newParticle_def mathRandom_def Let_def initialVelocity_def)
  show "1 \<le> p_radius (fst (newParticle h))" and "p_radius (fst (newParticle h)) < 3"
    and "0.2 \<le> p_opacity (fst (newParticle h))" and "p_opacity (fst (newParticle h)) < 0.8"
    using r(1)[of "Suc (Suc (Suc (Suc (h_randomCalls h))))"] r(2)[of "Suc (Suc (Suc (Suc (h_randomCalls h))))"]
      r(1)[of "Suc (Suc (Suc (Suc (Suc (h_randomCalls h)))))"] r(2)[of "Suc (Suc (Suc (Suc (Suc (h_randomCalls h)))))"]
    by (simp_all add: newParticle_def mathRandom_def Let_def)
qed

lemma Particle_new_initialised:
  assumes "unitRandom h"
  shows "inCanvas (h_width h) (h_height h) (P_x (fst (Particle_new h))) (P_y (fst (Particle_new h)))"
    and "initialVelocity (P_vx (fst (Particle_new h))) (P_vy (fst (Particle_new h)))"
    and "1 \<le> P_radius (fst (Particle_new h))"
proof -
  have r: "\<And>n. 0 \<le> h_random h n" "\<And>n. h_random h n < 1" "\<And>n. h_random h n \<le> 1"
    using assms by (auto simp: unitRandom_def intro: less_imp_le)
  have m: "\<And>n (w::nat). h_random h n * real w \<le> real w"
    using unit_scale r(1,3) by blast
  show "inCanvas (h_width h) (h_height h) (P_x (fst (Particle_new h))) (P_y (fst (Particle_new h)))"
    using r m by (simp add: Particle_new_def mathRandom_def Let_def inCanvas_def)
  have v: "\<And>n. \<bar>(h_random h n - 0.5) * 0.5\<bar> \<le> 0.25"
    using r(1,2) by (rule velocity_range)
  show "initialVelocity (P_vx (fst (Particle_new h))) (P_vy (fst (Particle_new h)))"
    using v by (simp add: Particle_new_def mathRandom_def Let_def initialVelocity_def)
  show "1 \<le> P_radius (fst (Particle_new h))"
    using r(1)[of "Suc (Suc (Suc (Suc (h_randomCalls h))))"]
    by (simp add: Particle_new_def mathRandom_def Let_def)
qed


subsection \<open>The edge policies\<close>

lemma frameBody_nth:
  "i < length (particles s) \<Longrightarrow>
   frameBody h s ! i = updateParticle (h_width h) (h_height h) (h_clock h) (frameTimeOf h s) (particles s ! i)"
  by (simp add: frameBody_def frameTimeOf_def)

lemma updateParticle_policy:
  "p_x (updateParticle W H now ft p) =
     (if movedX ft p < - p_radius p then real W + p_radius p
      else if movedX ft p > real W + p_radius p then - p_radius p
      else movedX ft p)"
  "p_y (updateParticle W H now ft p) =
     (if movedY ft p < - p_radius p then real H + p_radius p
      else if movedY ft p > real H + p_radius p then - p_radius p
      else movedY ft p)"
  "p_vx (updateParticle W H now ft p) = p_vx p"
  "p_vy (updateParticle W H now ft p) = p_vy p"
  by (simp_all add: updateParticle_def movedX_def movedY_def wrapEdge_def Let_def)

lemma Particle_update_policy:
  "P_x (Particle_update W H q) = P_x q + P_vx q"
  "P_y (Particle_update W H q) = P_y q + P_vy q"
  "P_vx (Particle_update W H q) =
     (if P_x q + P_vx q < 0 \<or> P_x q + P_vx q > real W then - P_vx q else P_vx q)"
  "P_vy (Particle_update W H q) =
     (if P_y q + P_vy q < 0 \<or> P_y q + P_vy q > real H then - P_vy q else P_vy q)"
  by (simp_all add: Particle_update_def Let_def)

text \<open>
  Claim C3, as the code has it. In a frame of the class \<^verbatim>\<open>ParticleSystem\<close>
  of \<^verbatim>\<open>script.js\<close> a particle that the move takes below \<open>-radius\<close> reappears at \<open>width + radius\<close>, one
  taken above \<open>width + radius\<close> reappears at \<open>-radius\<close>, any other keeps the
  moved position, the same on the vertical axis, and the velocity is
  unchanged. In a frame of \<^verbatim>\<open>initializeParticles\<close> the edge policy is a bounce: the
  particle keeps the moved position, and a velocity component is negated
  when the moved position is outside \<open>[0, width]\<close> (or \<open>[0, height]\<close>).
\<close>

theorem edge_policies:
  assumes "isVisible s" and "ctx s" and "canvas s" and "i < length (particles s)"
    and "h_context2d h" and "\<forall>q \<in> set qs. 0 \<le> P_radius q" and "k < length qs"
  shows "(let p = particles s ! i; p' = particles (snd (animate (h, s))) ! i;
              mx = movedX (frameTimeOf h s) p; my = movedY (frameTimeOf h s) p;
              W = real (h_width h); H = real (h_height h); r = p_radius p
          in p_x p' = (if mx < - r then W + r else if mx > W + r then - r else mx) \<and>
             p_y p' = (if my < - r then H + r else if my > H + r then - r else my) \<and>
             p_vx p' = p_vx p \<and> p_vy p' = p_vy p \<and> p_radius p' = r) \<and>
         (let q = qs ! k; q' = snd (ip_animate (h, qs)) ! k;
              W = real (h_width h); H = real (h_height h)
          in P_x q' = P_x q + P_vx q \<and> P_y q' = P_y q + P_vy q \<and>
             P_vx q' = (if P_x q' < 0 \<or> P_x q' > W then - P_vx q else P_vx q) \<and>
             P_vy q' = (if P_y q' < 0 \<or> P_y q' > H then - P_vy q else P_vy q))"
proof -
  have "particles (snd (animate (h, s))) ! i =
      updateParticle (h_width h) (h_height h) (h_clock h) (frameTimeOf h s) (particles s ! i)"
    using animate_running(1) [OF assms(1-3), of h] frameBody_nth [OF assms(4), of h] by simp
  moreover have "snd (ip_animate (h, qs)) ! k = Particle_update (h_width h) (h_height h) (qs ! k)"
    using ip_animate_running(1) [OF assms(5,6)] assms(7) by simp
  ultimately show ?thesis
    by (simp add: Let_def updateParticle_policy updateParticle_radius Particle_update_policy)
qed

theorem edge_policies_witness:
  "isVisible wrapSystem \<and> ctx wrapSystem \<and> canvas wrapSystem \<and> 0 < length (particles wrapSystem) \<and>
   h_context2d desktop \<and> list_all (\<lambda>q. 0 \<le> P_radius q) [strayPoint] \<and>
   particles wrapSystem ! 0 = leftParticle \<and>
   movedX (frameTimeOf desktop wrapSystem) leftParticle < - p_radius leftParticle \<and>
   p_x (particles (snd (animate (desktop, wrapSystem))) ! 0) = 301 \<and>
   p_vx (particles (snd (animate (desktop, wrapSystem))) ! 0) = - 0.25 \<and>
   P_x (snd (ip_animate (desktop, [strayPoint])) ! 0) = 700.25 \<and>
   P_vx (snd (ip_animate (desktop, [strayPoint])) ! 0) = - 0.25"
proof -
  have a: "isVisible wrapSystem" "ctx wrapSystem" "canvas wrapSystem" "0 < length (particles wrapSystem)"
    and p: "particles wrapSystem ! 0 = leftParticle"
    by (simp_all add: wrapSystem_def sampleSystem_def)
  have d: "h_context2d desktop" "h_width desktop = 300" "h_height desktop = 150"
    by (simp_all add: desktop_def)
  have q: "\<forall>q \<in> set [strayPoint]. 0 \<le> P_radius q" "(0::nat) < length [strayPoint]"
    by (simp_all add: strayPoint_def)
  have ft: "frameTimeOf desktop wrapSystem = 100"
    by (simp add: frameTimeOf_def wrapSystem_def sampleSystem_def desktop_def)
  have m: "movedX 100 leftParticle = - 1.15" "p_radius leftParticle = 1" "p_vx leftParticle = - 0.25"
    by (simp_all add: movedX_def leftParticle_def orElse_def)
  have s: "P_x strayPoint + P_vx strayPoint = 700.25" "P_vx strayPoint = 0.25"
    by (simp_all add: strayPoint_def)
  from edge_policies [OF a d(1) q] p ft m s d(2,3)
  have "p_x (particles (snd (animate (desktop, wrapSystem))) ! 0) = 301"
    and "p_vx (particles (snd (animate (desktop, wrapSystem))) ! 0) = - 0.25"
    and "P_x (snd (ip_animate (desktop, [strayPoint])) ! 0) = 700.25"
    and "P_vx (snd (ip_animate (desktop, [strayPoint])) ! 0) = - 0.25"
    by (simp_all add: Let_def)
  with a d(1) q(1) p ft m show ?thesis by simp
qed

text \<open>
  The claim as stated fails on \<^verbatim>\<open>Particle.update\<close>: on a canvas 500 wide, a
  particle of radius 1 at \<open>x = 700\<close> moving right is beyond \<open>width + radius\<close>
  after the step, is not relocated to \<open>-radius\<close>, and its velocity changes.
\<close>

theorem bounce_counterexample:
  "P_x (Particle_update 500 600 strayPoint) > real 500 + P_radius strayPoint \<and>
   P_x (Particle_update 500 600 strayPoint) \<noteq> - P_radius strayPoint \<and>
   P_vx (Particle_update 500 600 strayPoint) \<noteq> P_vx strayPoint"
  by (simp add: Particle_update_def strayPoint_def Let_def)

subsection \<open>The bouncing particles on a canvas that shrinks\<close>



















end
